theory Spec2Isabelle
  imports Main "HOL-Library.AList" "HOL-Library.Sublist"
begin

section \<open>Python values, errors and items\<close>

text \<open>
  The exceptions that the code in \<^verbatim>\<open>quodlibet/library/base.py\<close> raises, catches
  or lets escape. The code is quoted without its docstrings and its debug output
  (\<^verbatim>\<open>print_d\<close>), which the model leaves out.
\<close>

datatype py_error =
  AttributeError | TypeError | KeyError | SerializationError | EnvironmentError

text \<open>
  An item of a library (\<^verbatim>\<open>V\<close>, bound to \<^verbatim>\<open>HasKey\<close>): a hashable object with a
  \<^verbatim>\<open>key\<close> attribute of the key type \<^verbatim>\<open>K\<close>. Everything else of the object is its
  payload; two items are the same object exactly when key and payload agree, so
  distinct items can share a key.
\<close>

datatype ('k, 'a) item = Item (key: 'k) (payload: 'a)

text \<open>
  What \<^verbatim>\<open>__contains__\<close> can be asked about: its argument is untyped. A \<open>PKey\<close> is a
  hashable value with no \<^verbatim>\<open>key\<close> attribute (what the keys of \<^verbatim>\<open>_contents\<close> are), a
  \<open>PItem\<close> is an item, \<open>PUnhashable\<close> is a value such as a list, whose hash raises
  \<^verbatim>\<open>TypeError\<close>, and \<open>PObject a\<close> is any other hashable object with \<open>a\<close> as what reading
  its \<^verbatim>\<open>key\<close> gives: a value of any kind (an unhashable one too), or an error that the
  attribute raises. Items and other objects never compare equal to a key.
\<close>

datatype ('k, 'a) pyobj =
  PKey 'k
| PItem "('k, 'a) item"
| PUnhashable
| PObject "py_error + ('k, 'a) pyobj"

fun hashable :: "('k, 'a) pyobj \<Rightarrow> bool" where
  "hashable PUnhashable = False"
| "hashable (PKey k) = True"
| "hashable (PItem x) = True"
| "hashable (PObject a) = True"

datatype ('k, 'a) signal =
  Added "('k, 'a) item list"
| Removed "('k, 'a) item list"
| Changed "('k, 'a) item list"

section \<open>The library\<close>

text \<open>
  \<^verbatim>\<open>_contents\<close> is a Python dict: insertion-ordered, keys unique. It is an association
  list, written with \<open>AList.update\<close> (an existing key keeps its place, a new one goes to
  the end) and \<open>AList.delete\<close>. \<open>signals\<close> records every \<^verbatim>\<open>self.emit\<close>, oldest first;
  \<open>ident\<close> is the identity of the object, which is what membership among a librarian's
  libraries compares. A Python set is a list without duplicates; its iteration order is
  not specified by Python, the model takes the one \<open>remdups\<close> gives.
\<close>

record ('k, 'a) library =
  contents :: "('k \<times> ('k, 'a) item) list"
  name :: "string option"
  dirty :: bool
  signals :: "('k, 'a) signal list"
  filename :: "string option"
  ident :: nat

definition py_set :: "'x list \<Rightarrow> 'x list" where
  "py_set xs = remdups xs"

text \<open>\<^verbatim>\<open>x in d\<close> for a dict \<open>d\<close>: hashes \<open>x\<close> first.\<close>

fun dict_contains :: "('k \<times> 'v) list \<Rightarrow> ('k, 'a) pyobj \<Rightarrow> py_error + bool" where
  "dict_contains d (PKey k) = Inr (k \<in> fst ` set d)"
| "dict_contains d (PItem x) = Inr False"
| "dict_contains d (PObject a) = Inr False"
| "dict_contains d PUnhashable = Inl TypeError"

text \<open>\<^verbatim>\<open>x.key\<close>: the value of the attribute, or the error that reading it raises.\<close>

fun getattr_key :: "('k, 'a) pyobj \<Rightarrow> py_error + ('k, 'a) pyobj" where
  "getattr_key (PItem x) = Inr (PKey (key x))"
| "getattr_key (PObject a) = a"
| "getattr_key (PKey k) = Inl AttributeError"
| "getattr_key PUnhashable = Inl AttributeError"

text \<open>
  \<^verbatim>\<open>
  def __contains__(self, item):
      try:
          return item in self._contents or item.key in self._contents
      except AttributeError:
          return False
  \<close>
\<close>

definition contains_body :: "('k, 'a) library \<Rightarrow> ('k, 'a) pyobj \<Rightarrow> py_error + bool" where
  "contains_body s x =
     (case dict_contains (contents s) x of
        Inl e \<Rightarrow> Inl e
      | Inr True \<Rightarrow> Inr True
      | Inr False \<Rightarrow>
          (case getattr_key x of
             Inl e \<Rightarrow> Inl e
           | Inr v \<Rightarrow> dict_contains (contents s) v))"

definition lib_contains :: "('k, 'a) library \<Rightarrow> ('k, 'a) pyobj \<Rightarrow> py_error + bool" where
  "lib_contains s x =
     (case contains_body s x of
        Inl e \<Rightarrow> (if e = AttributeError then Inr False else Inl e)
      | Inr b \<Rightarrow> Inr b)"

text \<open>\<^verbatim>\<open>not b\<close> of a test that may raise.\<close>

fun py_not :: "py_error + bool \<Rightarrow> py_error + bool" where
  "py_not (Inl e) = Inl e"
| "py_not (Inr b) = Inr (\<not> b)"

text \<open>\<^verbatim>\<open>[x for x in xs if c(x)]\<close>, stopping at the first test that raises.\<close>

fun comprehension :: "('x \<Rightarrow> py_error + bool) \<Rightarrow> 'x list \<Rightarrow> py_error + 'x list" where
  "comprehension c [] = Inr []"
| "comprehension c (x # xs) =
     (case c x of
        Inl e \<Rightarrow> Inl e
      | Inr b \<Rightarrow>
          (case comprehension c xs of
             Inl e \<Rightarrow> Inl e
           | Inr ys \<Rightarrow> Inr (if b then x # ys else ys)))"

text \<open>\<^verbatim>\<open>for item in items: content[item.key] = item\<close>\<close>

fun store_all :: "('k, 'a) item list \<Rightarrow> ('k \<times> ('k, 'a) item) list \<Rightarrow> ('k \<times> ('k, 'a) item) list" where
  "store_all [] c = c"
| "store_all (x # xs) c = store_all xs (AList.update (key x) x c)"

text \<open>
  \<^verbatim>\<open>
  def _load_item(self, item):
      self.dirty = True
      self._contents[item.key] = item

  def _load_init(self, items):
      content = self._contents
      for item in items:
          content[item.key] = item
  \<close>
\<close>

definition load_item :: "('k, 'a) library \<Rightarrow> ('k, 'a) item \<Rightarrow> ('k, 'a) library" where
  "load_item s x = s\<lparr>dirty := True, contents := AList.update (key x) x (contents s)\<rparr>"

definition load_init :: "('k, 'a) library \<Rightarrow> ('k, 'a) item list \<Rightarrow> ('k, 'a) library" where
  "load_init s items = s\<lparr>contents := store_all items (contents s)\<rparr>"

text \<open>
  \<^verbatim>\<open>
  def add(self, items):
      items = {item for item in items if item not in self}
      if not items:
          return items
      for item in items:
          self._contents[item.key] = item
      self.dirty = True
      self.emit('added', items)
      return items
  \<close>
  \<open>add\<close> and \<open>remove\<close> give what the call returns or raises, and the library as the
  call left it.
\<close>

definition add ::
  "('k, 'a) library \<Rightarrow> ('k, 'a) item list \<Rightarrow> (py_error + ('k, 'a) item list) \<times> ('k, 'a) library" where
  "add s items =
     (case comprehension (\<lambda>x. py_not (lib_contains s (PItem x))) items of
        Inl e \<Rightarrow> (Inl e, s)
      | Inr ys \<Rightarrow>
          (let acc = py_set ys in
           if acc = [] then (Inr acc, s)
           else (Inr acc, s\<lparr>contents := store_all acc (contents s),
                               dirty := True,
                               signals := signals s @ [Added acc]\<rparr>)))"

text \<open>
  \<^verbatim>\<open>for item in items: del self._contents[item.key]\<close>; \<^verbatim>\<open>del\<close> of an absent key
  raises \<^verbatim>\<open>KeyError\<close>, and the dict stays as the loop left it.
\<close>

fun del_all ::
  "('k, 'a) item list \<Rightarrow> ('k \<times> ('k, 'a) item) list \<Rightarrow> py_error option \<times> ('k \<times> ('k, 'a) item) list" where
  "del_all [] c = (None, c)"
| "del_all (x # xs) c =
     (if key x \<in> fst ` set c then del_all xs (AList.delete (key x) c) else (Some KeyError, c))"

text \<open>
  \<^verbatim>\<open>
  def remove(self, items):
      items = {item for item in items if item in self}
      if not items:
          return items
      for item in items:
          del self._contents[item.key]
      self.dirty = True
      self.emit('removed', items)
      return items
  \<close>
\<close>

definition remove ::
  "('k, 'a) library \<Rightarrow> ('k, 'a) item list \<Rightarrow> (py_error + ('k, 'a) item list) \<times> ('k, 'a) library" where
  "remove s items =
     (case comprehension (\<lambda>x. lib_contains s (PItem x)) items of
        Inl e \<Rightarrow> (Inl e, s)
      | Inr ys \<Rightarrow>
          (let acc = py_set ys in
           if acc = [] then (Inr acc, s)
           else
             (case del_all acc (contents s) of
                (Some e, c) \<Rightarrow> (Inl e, s\<lparr>contents := c\<rparr>)
              | (None, c) \<Rightarrow> (Inr acc, s\<lparr>contents := c,
                                          dirty := True,
                                          signals := signals s @ [Removed acc]\<rparr>))))"

text \<open>
  The librarian (\<^verbatim>\<open>Library.librarian\<close>, a class attribute, \<^verbatim>\<open>None\<close> by default) is not
  part of this file. Of it the code reads \<^verbatim>\<open>libraries\<close>, a dict from names to
  libraries, and calls \<^verbatim>\<open>changed\<close>; \<open>changed_calls\<close> records the argument of each call.
\<close>

record ('k, 'a) librarian =
  libraries :: "(string \<times> nat) list"
  changed_calls :: "('k, 'a) item list list"

text \<open>\<^verbatim>\<open>self.librarian and self in self.librarian.libraries.values()\<close>\<close>

definition managed :: "('k, 'a) library \<Rightarrow> ('k, 'a) librarian option \<Rightarrow> bool" where
  "managed s l = (case l of None \<Rightarrow> False | Some lb \<Rightarrow> ident s \<in> snd ` set (libraries lb))"

text \<open>
  \<^verbatim>\<open>
  def _changed(self, items):
      if not items:
          return
      self.dirty = True
      self.emit('changed', items)
  \<close>
\<close>

definition changed_emit :: "('k, 'a) library \<Rightarrow> ('k, 'a) item list \<Rightarrow> ('k, 'a) library" where
  "changed_emit s items =
     (if items = [] then s
      else s\<lparr>dirty := True, signals := signals s @ [Changed items]\<rparr>)"

text \<open>
  \<^verbatim>\<open>
  def changed(self, items):
      if not items:
          return
      if self.librarian and self in self.librarian.libraries.values():
          self.librarian.changed(items)
      else:
          items = {item for item in items if item in self}
          if not items:
              return
          self._changed(items)
  \<close>
\<close>

definition changed ::
  "('k, 'a) library \<Rightarrow> ('k, 'a) librarian option \<Rightarrow> ('k, 'a) item list \<Rightarrow>
   (py_error + unit) \<times> ('k, 'a) library \<times> ('k, 'a) librarian option" where
  "changed s l items =
     (if items = [] then (Inr (), s, l)
      else if managed s l then
        (Inr (), s, map_option (\<lambda>lb. lb\<lparr>changed_calls := changed_calls lb @ [items]\<rparr>) l)
      else
        (case comprehension (\<lambda>x. lib_contains s (PItem x)) items of
           Inl e \<Rightarrow> (Inl e, s, l)
         | Inr ys \<Rightarrow>
             (let acc = py_set ys in
              if acc = [] then (Inr (), s, l)
              else (Inr (), changed_emit s acc, l))))"

text \<open>I1: every entry of \<^verbatim>\<open>_contents\<close> is stored under the key of its item.\<close>

definition keyed :: "('k, 'a) library \<Rightarrow> bool" where
  "keyed s \<longleftrightarrow> list_all (\<lambda>(k, v). key v = k) (contents s)"

text \<open>
  \<^verbatim>\<open>Library.__init__\<close> with no librarian: an empty dict, and the class attributes
  \<^verbatim>\<open>dirty = False\<close> and \<^verbatim>\<open>filename = None\<close>.
\<close>

definition new_library :: "string option \<Rightarrow> nat \<Rightarrow> ('k, 'a) library" where
  "new_library n i =
     \<lparr>contents = [], name = n, dirty = False, signals = [], filename = None, ident = i\<rparr>"

text \<open>A library holding one song, and two more songs, for the examples.\<close>

definition song_a :: "(string, nat) item" where "song_a = Item ''/m/a.ogg'' 1"
definition song_b :: "(string, nat) item" where "song_b = Item ''/m/b.ogg'' 2"
definition song_a2 :: "(string, nat) item" where "song_a2 = Item ''/m/a.ogg'' 3"

definition one_song :: "(string, nat) library" where
  "one_song = load_init (new_library None 0) [song_a]"

text \<open>A librarian that manages the library with identity 0 under the name \<open>main\<close>.\<close>

definition main_librarian :: "(string, nat) librarian" where
  "main_librarian = \<lparr>libraries = [(''main'', 0)], changed_calls = []\<rparr>"

section \<open>Persistence\<close>

text \<open>
  The file system as far as \<^verbatim>\<open>load\<close> and \<^verbatim>\<open>save\<close> see it: the files with their
  bytes, the paths that cannot be read, the paths that cannot be created, replaced or
  written, the directories that \<^verbatim>\<open>mkdir\<close> cannot provide, and the room there is for one
  file (\<open>None\<close>: no limit), so that a write can stop half-way on a full disk.
  Directories themselves are not modelled.
\<close>

type_synonym path = string
type_synonym bytes = string

record filesystem =
  files :: "path \<rightharpoonup> bytes"
  read_denied :: "path \<Rightarrow> bool"
  write_denied :: "path \<Rightarrow> bool"
  mkdir_denied :: "path \<Rightarrow> bool"
  space :: "nat option"

text \<open>What the code prints: \<^verbatim>\<open>print_w\<close> of its two messages, and \<^verbatim>\<open>util.print_exc()\<close>.\<close>

datatype log_entry = CouldNotLoad path | CouldNotSave path | PrintExc py_error

text \<open>\<^verbatim>\<open>with open(filename, "rb") as fp: data = fp.read()\<close>\<close>

definition read_file :: "filesystem \<Rightarrow> path \<Rightarrow> py_error + bytes" where
  "read_file fs p =
     (case files fs p of
        None \<Rightarrow> Inl EnvironmentError
      | Some d \<Rightarrow> if read_denied fs p then Inl EnvironmentError else Inr d)"

definition fits :: "filesystem \<Rightarrow> bytes \<Rightarrow> bool" where
  "fits fs d = (case space fs of None \<Rightarrow> True | Some n \<Rightarrow> length d \<le> n)"

text \<open>The bytes that reach the disk when \<open>d\<close> is written to one file.\<close>

definition written :: "filesystem \<Rightarrow> bytes \<Rightarrow> bytes" where
  "written fs d = (case space fs of None \<Rightarrow> d | Some n \<Rightarrow> take n d)"

definition put_file :: "filesystem \<Rightarrow> path \<Rightarrow> bytes \<Rightarrow> filesystem" where
  "put_file fs p d = fs\<lparr>files := (files fs)(p \<mapsto> d)\<rparr>"

definition unlink :: "filesystem \<Rightarrow> path \<Rightarrow> filesystem" where
  "unlink fs p = fs\<lparr>files := (files fs)(p := None)\<rparr>"

text \<open>
  \<^verbatim>\<open>shutil.copy(src, dst)\<close>: reads \<open>src\<close> and writes \<open>dst\<close>; what was written before a
  failure stays.
\<close>

definition copy_file :: "filesystem \<Rightarrow> path \<Rightarrow> path \<Rightarrow> py_error option \<times> filesystem" where
  "copy_file fs src dst =
     (case read_file fs src of
        Inl e \<Rightarrow> (Some e, fs)
      | Inr d \<Rightarrow>
          if write_denied fs dst then (Some EnvironmentError, fs)
          else if fits fs d then (None, put_file fs dst d)
          else (Some EnvironmentError, put_file fs dst (written fs d)))"

text \<open>
  \<^verbatim>\<open>
  def _load_items(filename):
      try:
          with open(filename, "rb") as fp:
              data = fp.read()
      except EnvironmentError:
          print_w("Couldn't load library file from: %r" % filename)
          return []
      try:
          items = load_audio_files(data)
      except SerializationError:
          util.print_exc()
          try:
              shutil.copy(filename, filename + ".not-valid")
          except EnvironmentError:
              util.print_exc()
          return []
      return items
  \<close>
  \<^verbatim>\<open>load_audio_files\<close> (\<^verbatim>\<open>quodlibet.formats\<close>) is the decoder; it is a parameter.
\<close>

definition load_items ::
  "(bytes \<Rightarrow> py_error + ('k, 'a) item list) \<Rightarrow> filesystem \<Rightarrow> path \<Rightarrow>
   (py_error + ('k, 'a) item list) \<times> filesystem \<times> log_entry list" where
  "load_items load_audio_files fs fname =
     (case read_file fs fname of
        Inl e \<Rightarrow>
          if e = EnvironmentError then (Inr [], fs, [CouldNotLoad fname]) else (Inl e, fs, [])
      | Inr data \<Rightarrow>
          (case load_audio_files data of
             Inl e \<Rightarrow>
               if e = SerializationError then
                 (case copy_file fs fname (fname @ ''.not-valid'') of
                    (Some e', fs') \<Rightarrow>
                      if e' = EnvironmentError
                      then (Inr [], fs', [PrintExc SerializationError, PrintExc EnvironmentError])
                      else (Inl e', fs', [PrintExc SerializationError])
                  | (None, fs') \<Rightarrow> (Inr [], fs', [PrintExc SerializationError]))
               else (Inl e, fs, [])
           | Inr items \<Rightarrow> (Inr items, fs, [])))"

text \<open>
  \<^verbatim>\<open>
  def load(self, filename):
      self.filename = filename
      items = _load_items(filename)
      self._load_init(items)
  \<close>
\<close>

definition load ::
  "(bytes \<Rightarrow> py_error + ('k, 'a) item list) \<Rightarrow> filesystem \<Rightarrow> ('k, 'a) library \<Rightarrow> path \<Rightarrow>
   (py_error + unit) \<times> ('k, 'a) library \<times> filesystem \<times> log_entry list" where
  "load load_audio_files fs s fname =
     (let s1 = s\<lparr>filename := Some fname\<rparr> in
      case load_items load_audio_files fs fname of
        (Inl e, fs', lg) \<Rightarrow> (Inl e, s1, fs', lg)
      | (Inr items, fs', lg) \<Rightarrow> (Inr (), load_init s1 items, fs', lg))"

text \<open>\<^verbatim>\<open>get_content\<close>: \<^verbatim>\<open>list(self.values())\<close>\<close>

definition get_content :: "('k, 'a) library \<Rightarrow> ('k, 'a) item list" where
  "get_content s = map snd (contents s)"

text \<open>
  \<^verbatim>\<open>os.path.dirname\<close> (posixpath): the part up to the last slash, without its trailing
  slashes unless it consists of slashes only.
\<close>

definition dirname :: "path \<Rightarrow> path" where
  "dirname p =
     (let head = rev (dropWhile (\<lambda>c. c \<noteq> CHR ''/'') (rev p)) in
      if head \<noteq> [] \<and> \<not> list_all (\<lambda>c. c = CHR ''/'') head
      then rev (dropWhile (\<lambda>c. c = CHR ''/'') (rev head))
      else head)"

text \<open>
  Modelled from the spec: \<^verbatim>\<open>mkdir\<close> of \<^verbatim>\<open>quodlibet.util.path\<close>, which is not in this file.
  The spec has it ensure that the parent directory exists; it raises an I/O error when
  it cannot.
\<close>

definition mkdir :: "filesystem \<Rightarrow> path \<Rightarrow> py_error option" where
  "mkdir fs d = (if mkdir_denied fs d then Some EnvironmentError else None)"

text \<open>
  The temporary file is a new file next to the target, named after it; \<open>r\<close> is the part
  of the name that the run chooses.
\<close>

definition temp_name :: "path \<Rightarrow> string \<Rightarrow> path" where
  "temp_name fname r = fname @ ''_'' @ r @ ''.tmp''"

text \<open>
  Modelled from the spec: \<^verbatim>\<open>atomic_save\<close> of \<^verbatim>\<open>quodlibet.util.atomic\<close>, which is not in
  this file. The spec: output is written to a temporary location and only renamed into
  place on complete success. \<open>body\<close> is what the \<^verbatim>\<open>with\<close> block computes to write, or
  the error it raises. The result is the error that leaves the \<^verbatim>\<open>with\<close> statement, if
  any, and the states the file system goes through, the first being the one before the
  call: the temporary file is created, written, and then renamed onto the target; after
  any failure it is deleted.
\<close>

definition atomic_save ::
  "filesystem \<Rightarrow> string \<Rightarrow> path \<Rightarrow> py_error + bytes \<Rightarrow> py_error option \<times> filesystem list" where
  "atomic_save fs r fname body =
     (let tmp = temp_name fname r in
      if write_denied fs tmp then (Some EnvironmentError, [fs])
      else
        (let fs1 = put_file fs tmp [] in
         case body of
           Inl e \<Rightarrow> (Some e, [fs, fs1, unlink fs1 tmp])
         | Inr d \<Rightarrow>
             (let fs2 = put_file fs1 tmp (written fs d) in
              if \<not> fits fs d then (Some EnvironmentError, [fs, fs1, fs2, unlink fs2 tmp])
              else if write_denied fs fname then (Some EnvironmentError, [fs, fs1, fs2, unlink fs2 tmp])
              else (None, [fs, fs1, fs2, unlink (put_file fs2 fname d) tmp]))))"

text \<open>
  \<^verbatim>\<open>
  def save(self, filename=None):
      if filename is None:
          filename = self.filename
      try:
          dirname = os.path.dirname(filename)
          mkdir(dirname)
          with atomic_save(filename, "wb") as fileobj:
              fileobj.write(dump_audio_files(self.get_content()))
      except SerializationError:
          util.print_exc()
      except EnvironmentError:
          print_w(f"Couldn't save library to path {filename!r}")
      else:
          self.dirty = False
  \<close>
  \<^verbatim>\<open>dump_audio_files\<close> (\<^verbatim>\<open>quodlibet.formats\<close>) is the encoder; it is a parameter. With no
  file name at all, \<^verbatim>\<open>os.path.dirname(None)\<close> raises \<^verbatim>\<open>TypeError\<close>, which no clause
  catches. The result is what the call returns or raises, the library, the states the
  file system goes through, and what was printed.
\<close>

definition save_to :: "('k, 'a) library \<Rightarrow> path option \<Rightarrow> path option" where
  "save_to s fname = (case fname of None \<Rightarrow> filename s | Some f \<Rightarrow> Some f)"

definition save_attempt ::
  "(('k, 'a) item list \<Rightarrow> py_error + bytes) \<Rightarrow> filesystem \<Rightarrow> string \<Rightarrow> ('k, 'a) library \<Rightarrow> path \<Rightarrow>
   py_error option \<times> filesystem list" where
  "save_attempt dump_audio_files fs r s f =
     (case mkdir fs (dirname f) of
        Some e \<Rightarrow> (Some e, [fs])
      | None \<Rightarrow> atomic_save fs r f (dump_audio_files (get_content s)))"

definition save ::
  "(('k, 'a) item list \<Rightarrow> py_error + bytes) \<Rightarrow> filesystem \<Rightarrow> string \<Rightarrow> ('k, 'a) library \<Rightarrow>
   path option \<Rightarrow> (py_error + unit) \<times> ('k, 'a) library \<times> filesystem list \<times> log_entry list" where
  "save dump_audio_files fs r s fname =
     (case save_to s fname of
        None \<Rightarrow> (Inl TypeError, s, [fs], [])
      | Some f \<Rightarrow>
          (case save_attempt dump_audio_files fs r s f of
             (Some e, tr) \<Rightarrow>
               if e = SerializationError then (Inr (), s, tr, [PrintExc SerializationError])
               else if e = EnvironmentError then (Inr (), s, tr, [CouldNotSave f])
               else (Inl e, s, tr, [])
           | (None, tr) \<Rightarrow> (Inr (), s\<lparr>dirty := False\<rparr>, tr, [])))"

text \<open>
  A codec for the examples: a library file holds the payloads of its songs as a string
  of digits below 5, and an encoder that fails.
\<close>

fun demo_decode :: "bytes \<Rightarrow> py_error + (string, nat) item list" where
  "demo_decode [] = Inr []"
| "demo_decode (c # cs) =
     (if c = CHR ''1'' then map_sum id ((#) song_a) (demo_decode cs)
      else if c = CHR ''2'' then map_sum id ((#) song_b) (demo_decode cs)
      else Inl SerializationError)"

definition demo_encode :: "(string, nat) item list \<Rightarrow> py_error + bytes" where
  "demo_encode xs = Inr (map (\<lambda>x. if payload x = 1 then CHR ''1'' else CHR ''2'') xs)"

definition failing_encode :: "(string, nat) item list \<Rightarrow> py_error + bytes" where
  "failing_encode xs = Inl SerializationError"

definition demo_fs :: filesystem where
  "demo_fs = \<lparr>files = [''/lib/songs'' \<mapsto> ''12'', ''/lib/broken'' \<mapsto> ''1x''],
              read_denied = (\<lambda>p. False), write_denied = (\<lambda>p. False),
              mkdir_denied = (\<lambda>p. False), space = None\<rparr>"

section \<open>Scanning a directory tree\<close>

text \<open>
  What \<^verbatim>\<open>os.walk\<close> finds in a directory: the names in it, in the order of the listing,
  each with what it is. A \<open>File\<close> is everything that is not a directory (it goes to
  \<^verbatim>\<open>fnames\<close>); a \<open>DirLink\<close> is a symbolic link to a directory (it goes to \<^verbatim>\<open>dnames\<close>,
  and \<^verbatim>\<open>os.walk\<close> does not descend into it); a \<open>Dir\<close> is a directory with its own
  listing.
\<close>

datatype node = File | DirLink | Dir "(string \<times> node) list"

text \<open>\<^verbatim>\<open>os.path.join(a, b)\<close> (posixpath)\<close>

definition join :: "path \<Rightarrow> string \<Rightarrow> path" where
  "join a b =
     (if prefix ''/'' b then b
      else if a = [] \<or> last a = CHR ''/'' then a @ b
      else a @ ''/'' @ b)"

text \<open>
  \<^verbatim>\<open>
  def skip(path):
      if skip_hidden and ishidden(path):
          return True
      return any((path.startswith(p) for p in exclude))
  \<close>
  \<^verbatim>\<open>ishidden\<close> (\<^verbatim>\<open>quodlibet.util.path\<close>) and \<^verbatim>\<open>os.path.realpath\<close>, which reads the
  symbolic links of the file system, are parameters.
\<close>

definition skip :: "(path \<Rightarrow> bool) \<Rightarrow> path list \<Rightarrow> bool \<Rightarrow> path \<Rightarrow> bool" where
  "skip ishidden exclude skip_hidden p =
     (if skip_hidden \<and> ishidden p then True else list_ex (\<lambda>e. prefix e p) exclude)"

text \<open>
  \<^verbatim>\<open>
  fullfilename = os.path.join(path, filename)
  if skip(fullfilename):
      continue
  fullfilename = os.path.realpath(fullfilename)
  if skip(fullfilename):
      continue
  yield fullfilename
  \<close>
\<close>

definition yield_file ::
  "(path \<Rightarrow> bool) \<Rightarrow> (path \<Rightarrow> path) \<Rightarrow> path list \<Rightarrow> bool \<Rightarrow> path \<Rightarrow> string \<Rightarrow> path list" where
  "yield_file ishidden realpath exclude skip_hidden p fname =
     (let fullfilename = join p fname in
      if skip ishidden exclude skip_hidden fullfilename then []
      else
        (let resolved = realpath fullfilename in
         if skip ishidden exclude skip_hidden resolved then [] else [resolved]))"

definition fnames :: "(string \<times> node) list \<Rightarrow> string list" where
  "fnames es = map fst (filter (\<lambda>(n, e). e = File) es)"

text \<open>
  \<^verbatim>\<open>
  for path, dnames, fnames in os.walk(root):
      if skip_hidden:
          dnames[:] = list(filter(
              lambda d: not ishidden(os.path.join(path, d)), dnames))
      for filename in fnames:
          ...
  \<close>
  \<open>walk_dir\<close> is the loop body at the directory \<open>p\<close> with the listing \<open>es\<close>, followed by
  what the loop does below \<open>p\<close>: \<^verbatim>\<open>os.walk\<close> goes on, in the order of the listing, into
  the names left in \<^verbatim>\<open>dnames\<close> that are directories and no links (\<open>walk_subdirs\<close>).
\<close>

function walk_dir ::
  "(path \<Rightarrow> bool) \<Rightarrow> (path \<Rightarrow> path) \<Rightarrow> path list \<Rightarrow> bool \<Rightarrow> path \<Rightarrow> (string \<times> node) list \<Rightarrow> path list"
and walk_subdirs ::
  "(path \<Rightarrow> bool) \<Rightarrow> (path \<Rightarrow> path) \<Rightarrow> path list \<Rightarrow> bool \<Rightarrow> path \<Rightarrow> (string \<times> node) list \<Rightarrow> path list"
where
  "walk_dir ishidden realpath exclude skip_hidden p es =
     concat (map (yield_file ishidden realpath exclude skip_hidden p) (fnames es))
     @ walk_subdirs ishidden realpath exclude skip_hidden p es"
| "walk_subdirs ishidden realpath exclude skip_hidden p [] = []"
| "walk_subdirs ishidden realpath exclude skip_hidden p ((n, File) # es) =
     walk_subdirs ishidden realpath exclude skip_hidden p es"
| "walk_subdirs ishidden realpath exclude skip_hidden p ((n, DirLink) # es) =
     walk_subdirs ishidden realpath exclude skip_hidden p es"
| "walk_subdirs ishidden realpath exclude skip_hidden p ((n, Dir sub) # es) =
     (if skip_hidden \<and> ishidden (join p n) then []
      else walk_dir ishidden realpath exclude skip_hidden (join p n) sub)
     @ walk_subdirs ishidden realpath exclude skip_hidden p es"
  by pat_completeness auto
termination
  by (relation "measure (\<lambda>x. case x of
        Inl (_, _, _, _, _, es) \<Rightarrow> 2 * size_list (size_prod (\<lambda>_. 0) size) es + 1
      | Inr (_, _, _, _, _, es) \<Rightarrow> 2 * size_list (size_prod (\<lambda>_. 0) size) es)") auto

text \<open>
  \<^verbatim>\<open>
  def iter_paths(root, exclude=[], skip_hidden=True):
      if skip_hidden and ishidden(root):
          return
      for path, dnames, fnames in os.walk(root):
          ...
  \<close>
  \<open>listing\<close> is what is in \<open>root\<close>; it is \<open>None\<close> when \<open>root\<close> cannot be listed (it is
  missing, or no directory), and then \<^verbatim>\<open>os.walk\<close> yields nothing. The values the generator
  yields are a list.
\<close>

definition iter_paths ::
  "(path \<Rightarrow> bool) \<Rightarrow> (path \<Rightarrow> path) \<Rightarrow> (string \<times> node) list option \<Rightarrow>
   path \<Rightarrow> path list \<Rightarrow> bool \<Rightarrow> path list" where
  "iter_paths ishidden realpath listing root exclude skip_hidden =
     (if skip_hidden \<and> ishidden root then []
      else case listing of
        None \<Rightarrow> []
      | Some es \<Rightarrow> walk_dir ishidden realpath exclude skip_hidden root es)"

text \<open>
  The files of a tree, for stating what \<open>iter_paths\<close> yields: each file below the
  directory \<open>p\<close> with its full path and the directories it lies under, from \<open>ds\<close>
  down to the one that holds it.
\<close>

function tree_files :: "path \<Rightarrow> path list \<Rightarrow> (string \<times> node) list \<Rightarrow> (path \<times> path list) list" where
  "tree_files p ds [] = []"
| "tree_files p ds ((n, File) # es) = (join p n, ds) # tree_files p ds es"
| "tree_files p ds ((n, DirLink) # es) = tree_files p ds es"
| "tree_files p ds ((n, Dir sub) # es) =
     tree_files (join p n) (ds @ [join p n]) sub @ tree_files p ds es"
  by pat_completeness auto
termination
  by (relation "measure (\<lambda>(_, _, es). size_list (size_prod (\<lambda>_. 0) size) es)") auto

text \<open>
  Modelled from the spec: \<^verbatim>\<open>ishidden\<close> of \<^verbatim>\<open>quodlibet.util.path\<close>, which is not in this
  file. The spec has a path hidden by name convention (or, on some hosts, by an
  attribute of the file), and speaks of directories that are themselves hidden: the
  last name of the path starts with a dot. The directories above it are not looked at.
\<close>

definition basename :: "path \<Rightarrow> string" where
  "basename p = rev (takeWhile (\<lambda>c. c \<noteq> CHR ''/'') (rev p))"

definition dot_hidden :: "path \<Rightarrow> bool" where
  "dot_hidden p = prefix ''.'' (basename p)"

text \<open>
  The tree of the spec's example under \<^verbatim>\<open>/r\<close>: \<^verbatim>\<open>/r/.hidden/x\<close>, \<^verbatim>\<open>/r/a.txt\<close>,
  \<^verbatim>\<open>/r/b/c.txt\<close>, with no symbolic links.
\<close>

definition demo_tree :: "(string \<times> node) list" where
  "demo_tree = [(''.hidden'', Dir [(''x'', File)]), (''a.txt'', File), (''b'', Dir [(''c.txt'', File)])]"

text \<open>
  A tree under \<^verbatim>\<open>/r\<close> with a symbolic link to a file in a hidden directory:
  \<^verbatim>\<open>/r/.hidden/x\<close> and \<^verbatim>\<open>/r/link\<close>, which points to \<^verbatim>\<open>.hidden/x\<close>. \<^verbatim>\<open>os.walk\<close> lists
  the link among the files, and \<^verbatim>\<open>os.path.realpath\<close> resolves it.
\<close>

definition link_tree :: "(string \<times> node) list" where
  "link_tree = [(''.hidden'', Dir [(''x'', File)]), (''link'', File)]"

definition link_realpath :: "path \<Rightarrow> path" where
  "link_realpath p = (if p = ''/r/link'' then ''/r/.hidden/x'' else p)"

section \<open>Facts about the library operations\<close>

lemma lib_contains_item: "lib_contains s (PItem x) = Inr (key x \<in> fst ` set (contents s))"
  by (simp add: lib_contains_def contains_body_def)

lemma lib_contains_key: "lib_contains s (PKey k) = Inr (k \<in> fst ` set (contents s))"
  by (simp add: lib_contains_def contains_body_def split: bool.splits)

lemma lib_contains_unhashable: "lib_contains s PUnhashable = Inl TypeError"
  by (simp add: lib_contains_def contains_body_def)

lemma comprehension_total:
  "(\<And>x. x \<in> set xs \<Longrightarrow> c x = Inr (p x)) \<Longrightarrow> comprehension c xs = Inr (filter p xs)"
  by (induction xs) auto

lemma absent_items:
  "comprehension (\<lambda>x. py_not (lib_contains s (PItem x))) items =
   Inr (filter (\<lambda>x. key x \<notin> fst ` set (contents s)) items)"
  by (rule comprehension_total) (simp add: lib_contains_item)

lemma present_items:
  "comprehension (\<lambda>x. lib_contains s (PItem x)) items =
   Inr (filter (\<lambda>x. key x \<in> fst ` set (contents s)) items)"
  by (rule comprehension_total) (simp add: lib_contains_item)

lemma store_all_keys: "fst ` set (store_all xs c) = fst ` set c \<union> key ` set xs"
  by (induction xs arbitrary: c) (auto simp: dom_update)

lemma store_all_other: "k \<notin> key ` set xs \<Longrightarrow> map_of (store_all xs c) k = map_of c k"
  by (induction xs arbitrary: c) (auto simp: update_conv')

lemma store_all_some:
  "x \<in> set xs \<Longrightarrow> \<exists>y\<in>set xs. key y = key x \<and> map_of (store_all xs c) (key x) = Some y"
proof (induction xs arbitrary: c x)
  case Nil
  then show ?case by simp
next
  case (Cons a xs)
  show ?case
  proof (cases "key x \<in> key ` set xs")
    case True
    then obtain z where "z \<in> set xs" "key z = key x" by auto
    from Cons.IH [OF this(1), of "AList.update (key a) a c"] this(2)
    show ?thesis by auto
  next
    case False
    with Cons.prems have "x = a" by auto
    with False show ?thesis by (simp add: store_all_other update_conv')
  qed
qed

lemma store_all_inj:
  "inj_on key (set xs) \<Longrightarrow> x \<in> set xs \<Longrightarrow> map_of (store_all xs c) (key x) = Some x"
  using store_all_some [of x xs c] by (auto dest: inj_onD)

lemma update_keyed:
  "list_all (\<lambda>(k, v). key v = k) c \<Longrightarrow> list_all (\<lambda>(k, v). key v = k) (AList.update (key x) x c)"
  by (induction c) auto

lemma store_all_keyed:
  "list_all (\<lambda>(k, v). key v = k) c \<Longrightarrow> list_all (\<lambda>(k, v). key v = k) (store_all xs c)"
  by (induction xs arbitrary: c) (auto simp: update_keyed)

lemma delete_keyed:
  "list_all (\<lambda>(k, v). key v = k) c \<Longrightarrow> list_all (\<lambda>(k, v). key v = k) (AList.delete k' c)"
  by (induction c) auto

lemma del_all_keyed:
  "list_all (\<lambda>(k, v). key v = k) c \<Longrightarrow> list_all (\<lambda>(k, v). key v = k) (snd (del_all xs c))"
  by (induction xs arbitrary: c) (auto simp: delete_keyed)

lemma delete_keys_set: "fst ` set (AList.delete k c) = fst ` set c - {k}"
  by (induction c) auto

lemma del_all_ok:
  "distinct (map key xs) \<Longrightarrow> key ` set xs \<subseteq> fst ` set c \<Longrightarrow>
   del_all xs c = (None, filter (\<lambda>(k, v). k \<notin> key ` set xs) c)"
proof (induction xs arbitrary: c)
  case Nil
  then show ?case by simp
next
  case (Cons a xs)
  have "key ` set xs \<subseteq> fst ` set (AList.delete (key a) c)"
    using Cons.prems by (auto simp: delete_keys_set) (metis imageI)
  with Cons show ?case by (auto simp: AList.delete_eq intro: filter_cong)
qed

lemma del_all_absent:
  "k \<in> key ` set xs \<Longrightarrow> k \<notin> fst ` set c \<Longrightarrow> fst (del_all xs c) = Some KeyError"
proof (induction xs arbitrary: c)
  case Nil
  then show ?case by simp
next
  case (Cons a xs)
  show ?case
  proof (cases "key a \<in> fst ` set c")
    case False
    then show ?thesis by simp
  next
    case True
    with Cons.prems have "k \<noteq> key a" by auto
    with Cons.prems have "k \<in> key ` set xs" "k \<notin> fst ` set (AList.delete (key a) c)"
      by (auto simp: delete_keys_set)
    from Cons.IH [OF this] True show ?thesis by simp
  qed
qed

lemma del_all_dup:
  "\<not> distinct (map key xs) \<Longrightarrow> fst (del_all xs c) = Some KeyError"
proof (induction xs arbitrary: c)
  case Nil
  then show ?case by simp
next
  case (Cons a xs)
  show ?case
  proof (cases "distinct (map key xs)")
    case False
    with Cons.IH show ?thesis by simp
  next
    case True
    with Cons.prems have "key a \<in> key ` set xs" by auto
    then have "fst (del_all xs (AList.delete (key a) c)) = Some KeyError"
      by (rule del_all_absent) (simp add: delete_keys_set)
    then show ?thesis by simp
  qed
qed

lemma inj_on_distinct_keys:
  "distinct xs \<Longrightarrow> inj_on key (set xs) \<Longrightarrow> distinct (map key xs)"
  by (simp add: distinct_map)

lemma map_of_filter_keys:
  "k \<notin> K \<Longrightarrow> map_of (filter (\<lambda>(k', v). k' \<notin> K) c) k = map_of c k"
  by (induction c) auto

text \<open>
  When two different items of the input that are members of the library share a key,
  \<open>remove\<close> raises \<^verbatim>\<open>KeyError\<close>: the condition of \<open>del_all_ok\<close> is what keeps the loop
  of \<open>remove\<close> from deleting a key twice.
\<close>

lemma remove_raises_on_shared_key:
  assumes "\<not> inj_on key {x \<in> set items. lib_contains s (PItem x) = Inr True}"
  shows "fst (remove s items) = Inl KeyError"
proof -
  define acc where "acc = py_set (filter (\<lambda>x. key x \<in> fst ` set (contents s)) items)"
  have "set acc = {x \<in> set items. lib_contains s (PItem x) = Inr True}"
    by (auto simp: acc_def py_set_def lib_contains_item)
  with assms have "\<not> inj_on key (set acc)"
    by simp
  then have "\<not> distinct (map key acc)"
    by (simp add: distinct_map)
  then have raised: "fst (del_all acc (contents s)) = Some KeyError"
    by (rule del_all_dup)
  from \<open>\<not> inj_on key (set acc)\<close> have "acc \<noteq> []"
    by auto
  with raised show ?thesis
    by (cases "del_all acc (contents s)")
       (simp add: remove_def present_items Let_def acc_def [symmetric])
qed

section \<open>Facts about persistence\<close>

lemma temp_name_differs: "temp_name f r \<noteq> f"
proof
  assume "temp_name f r = f"
  then have "length (temp_name f r) = length f" by simp
  then show False by (simp add: temp_name_def)
qed

lemma atomic_save_failed:
  assumes "atomic_save fs r f body = (Some e, tr)"
  shows "\<forall>st \<in> set tr. files st f = files fs f"
  using assms temp_name_differs [of f r]
  by (auto simp: atomic_save_def Let_def put_file_def unlink_def
      split: if_splits sum.splits)

lemma atomic_save_done:
  assumes "atomic_save fs r f body = (None, tr)"
  shows "\<exists>d. body = Inr d \<and> fits fs d \<and> \<not> write_denied fs (temp_name f r) \<and> \<not> write_denied fs f
     \<and> files (last tr) f = Some d
     \<and> (\<forall>st \<in> set tr. files st f = files fs f \<or> files st f = Some d)"
  using assms temp_name_differs [of f r]
  by (auto simp: atomic_save_def Let_def put_file_def unlink_def
      split: if_splits sum.splits)

lemma atomic_save_cases:
  "\<exists>tr. atomic_save fs r f body =
     (if write_denied fs (temp_name f r) then Some EnvironmentError
      else case body of
        Inl e \<Rightarrow> Some e
      | Inr d \<Rightarrow> if fits fs d \<and> \<not> write_denied fs f then None else Some EnvironmentError,
      tr)"
  by (auto simp: atomic_save_def Let_def split: sum.splits)

lemma atomic_save_trace: "snd (atomic_save fs r f body) \<noteq> [] \<and> hd (snd (atomic_save fs r f body)) = fs"
  by (auto simp: atomic_save_def Let_def split: sum.splits)

text \<open>What \<open>save\<close> does with a file name, by the outcome of the attempt.\<close>

lemma save_outcomes:
  assumes "save_to s fname = Some f"
  shows
    "(\<not> mkdir_denied fs (dirname f) \<and> \<not> write_denied fs (temp_name f r)
        \<and> (\<exists>d. dump (get_content s) = Inr d \<and> fits fs d) \<and> \<not> write_denied fs f
      \<longrightarrow> (\<exists>tr. save dump fs r s fname = (Inr (), s\<lparr>dirty := False\<rparr>, tr, [])))
   \<and> (\<not> (\<not> mkdir_denied fs (dirname f) \<and> \<not> write_denied fs (temp_name f r)
        \<and> (\<exists>d. dump (get_content s) = Inr d \<and> fits fs d) \<and> \<not> write_denied fs f)
      \<longrightarrow> (\<exists>res tr lg. save dump fs r s fname = (res, s, tr, lg)))
   \<and> (\<not> mkdir_denied fs (dirname f) \<and> \<not> write_denied fs (temp_name f r)
        \<and> dump (get_content s) = Inl SerializationError
      \<longrightarrow> (\<exists>tr. save dump fs r s fname = (Inr (), s, tr, [PrintExc SerializationError])))
   \<and> (mkdir_denied fs (dirname f) \<or> write_denied fs (temp_name f r)
        \<or> (\<exists>d. dump (get_content s) = Inr d \<and> (\<not> fits fs d \<or> write_denied fs f))
      \<longrightarrow> (\<exists>tr. save dump fs r s fname = (Inr (), s, tr, [CouldNotSave f])))"
proof -
  define body where "body = dump (get_content s)"
  have att: "save_attempt dump fs r s f =
      (if mkdir_denied fs (dirname f) then (Some EnvironmentError, [fs])
       else atomic_save fs r f body)"
    by (simp add: save_attempt_def mkdir_def body_def)
  from atomic_save_cases [of fs r f body] obtain tr0 where cases: "atomic_save fs r f body =
     (if write_denied fs (temp_name f r) then Some EnvironmentError
      else case body of
        Inl e \<Rightarrow> Some e
      | Inr d \<Rightarrow> if fits fs d \<and> \<not> write_denied fs f then None else Some EnvironmentError,
      tr0)" ..
  have ok: "\<exists>tr. save dump fs r s fname = (Inr (), s\<lparr>dirty := False\<rparr>, tr, [])"
    if "\<not> mkdir_denied fs (dirname f)" "\<not> write_denied fs (temp_name f r)"
       "\<exists>d. body = Inr d \<and> fits fs d" "\<not> write_denied fs f"
  proof -
    from that cases have "atomic_save fs r f body = (None, tr0)"
      by auto
    with that(1) show ?thesis
      by (simp add: save_def assms att)
  qed
  have ser: "\<exists>tr. save dump fs r s fname = (Inr (), s, tr, [PrintExc SerializationError])"
    if "\<not> mkdir_denied fs (dirname f)" "\<not> write_denied fs (temp_name f r)"
       "body = Inl SerializationError"
  proof -
    from that cases
    have "atomic_save fs r f body = (Some SerializationError, tr0)"
      by auto
    with that(1) show ?thesis
      by (simp add: save_def assms att)
  qed
  have io: "\<exists>tr. save dump fs r s fname = (Inr (), s, tr, [CouldNotSave f])"
    if "mkdir_denied fs (dirname f) \<or> write_denied fs (temp_name f r)
        \<or> (\<exists>d. body = Inr d \<and> (\<not> fits fs d \<or> write_denied fs f))"
  proof (cases "mkdir_denied fs (dirname f)")
    case True
    then show ?thesis by (simp add: save_def assms att)
  next
    case False
    with that cases
    have "atomic_save fs r f body = (Some EnvironmentError, tr0)"
      by auto
    with False show ?thesis
      by (simp add: save_def assms att)
  qed
  have other: "\<exists>res tr lg. save dump fs r s fname = (res, s, tr, lg)"
    if "\<not> (\<not> mkdir_denied fs (dirname f) \<and> \<not> write_denied fs (temp_name f r)
        \<and> (\<exists>d. body = Inr d \<and> fits fs d) \<and> \<not> write_denied fs f)"
  proof (cases "mkdir_denied fs (dirname f)")
    case True
    then show ?thesis by (simp add: save_def assms att)
  next
    case False
    with that cases
    obtain e where "atomic_save fs r f body = (Some e, tr0)"
      by (cases body) (auto split: if_splits)
    with False show ?thesis
      by (simp add: save_def assms att)
  qed
  from ok ser io other show ?thesis
    unfolding body_def by blast
qed

section \<open>Facts about the scan\<close>

lemma yield_file_sound:
  "y \<in> set (yield_file ishidden realpath exclude skip_hidden p n) \<Longrightarrow>
   y = realpath (join p n)
   \<and> \<not> skip ishidden exclude skip_hidden (join p n)
   \<and> \<not> skip ishidden exclude skip_hidden y"
  by (auto simp: yield_file_def Let_def split: if_splits)

lemma tree_files_file: "(n, File) \<in> set es \<Longrightarrow> (join p n, ds) \<in> set (tree_files p ds es)"
  by (induction p ds es rule: tree_files.induct) auto

lemma walk_sound:
  "y \<in> set (walk_dir ishidden realpath exclude skip_hidden p es) \<Longrightarrow>
     \<exists>f ds'. (f, ds @ ds') \<in> set (tree_files p ds es)
       \<and> y = realpath f
       \<and> \<not> skip ishidden exclude skip_hidden f
       \<and> \<not> skip ishidden exclude skip_hidden y
       \<and> (skip_hidden \<longrightarrow> (\<forall>d \<in> set ds'. \<not> ishidden d))"
  "y \<in> set (walk_subdirs ishidden realpath exclude skip_hidden p es) \<Longrightarrow>
     \<exists>f ds'. (f, ds @ ds') \<in> set (tree_files p ds es)
       \<and> y = realpath f
       \<and> \<not> skip ishidden exclude skip_hidden f
       \<and> \<not> skip ishidden exclude skip_hidden y
       \<and> (skip_hidden \<longrightarrow> (\<forall>d \<in> set ds'. \<not> ishidden d))"
proof (induction ishidden realpath exclude skip_hidden p es
         and ishidden realpath exclude skip_hidden p es
       arbitrary: ds and ds rule: walk_dir_walk_subdirs.induct)
  case (1 ishidden realpath exclude skip_hidden p es)
  from "1.prems" consider
      (here) n where "n \<in> set (fnames es)"
        "y \<in> set (yield_file ishidden realpath exclude skip_hidden p n)"
    | (below) "y \<in> set (walk_subdirs ishidden realpath exclude skip_hidden p es)"
    by auto
  then show ?case
  proof cases
    case here
    from here(1) have "(n, File) \<in> set es"
      by (auto simp: fnames_def)
    then have "(join p n, ds @ []) \<in> set (tree_files p ds es)"
      by (simp add: tree_files_file)
    with yield_file_sound [OF here(2)] show ?thesis
      by (intro exI [of _ "join p n"] exI [of _ "[]"]) auto
  next
    case below
    then show ?thesis by (rule "1.IH")
  qed
next
  case (2 ishidden realpath exclude skip_hidden p)
  then show ?case by simp
next
  case (3 ishidden realpath exclude skip_hidden p n es)
  from "3.prems" have "y \<in> set (walk_subdirs ishidden realpath exclude skip_hidden p es)"
    by simp
  from "3.IH" [OF this, of ds] show ?case by auto
next
  case (4 ishidden realpath exclude skip_hidden p n es)
  from "4.prems" have "y \<in> set (walk_subdirs ishidden realpath exclude skip_hidden p es)"
    by simp
  from "4.IH" [OF this, of ds] show ?case by auto
next
  case (5 ishidden realpath exclude skip_hidden p n sub es)
  from "5.prems" consider
      (sub) "\<not> (skip_hidden \<and> ishidden (join p n))"
        "y \<in> set (walk_dir ishidden realpath exclude skip_hidden (join p n) sub)"
    | (rest) "y \<in> set (walk_subdirs ishidden realpath exclude skip_hidden p es)"
    by (auto split: if_splits)
  then show ?case
  proof cases
    case sub
    from "5.IH"(1) [OF sub(1) sub(2), of "ds @ [join p n]"]
    obtain f ds' where f: "(f, (ds @ [join p n]) @ ds') \<in> set (tree_files (join p n) (ds @ [join p n]) sub)"
      "y = realpath f" "\<not> skip ishidden exclude skip_hidden f"
      "\<not> skip ishidden exclude skip_hidden y"
      "skip_hidden \<longrightarrow> (\<forall>d \<in> set ds'. \<not> ishidden d)"
      by blast
    from f(1) have "(f, ds @ (join p n # ds')) \<in> set (tree_files p ds ((n, Dir sub) # es))"
      by simp
    moreover from sub(1) f(5) have "skip_hidden \<longrightarrow> (\<forall>d \<in> set (join p n # ds'). \<not> ishidden d)"
      by auto
    ultimately show ?thesis using f(2-4) by blast
  next
    case rest
    from "5.IH"(2) [OF this, of ds] show ?thesis by auto
  qed
qed

lemma skip_excluded:
  "\<not> skip ishidden exclude skip_hidden y \<Longrightarrow>
   (\<forall>e \<in> set exclude. \<not> prefix e y) \<and> (skip_hidden \<longrightarrow> \<not> ishidden y)"
  by (auto simp: skip_def list_ex_iff split: if_splits)

text \<open>
  The converse: a file of the tree is yielded when \<open>skip\<close> rejects neither its path nor
  the resolved one and, with \<open>skip_hidden\<close>, no directory between \<open>p\<close> and the file is
  hidden.
\<close>

lemma walk_dir_file:
  "set (walk_dir ishidden realpath exclude skip_hidden p ((n, File) # es)) =
   set (yield_file ishidden realpath exclude skip_hidden p n)
   \<union> set (walk_dir ishidden realpath exclude skip_hidden p es)"
  by (auto simp: fnames_def)

lemma walk_dir_link:
  "set (walk_dir ishidden realpath exclude skip_hidden p ((n, DirLink) # es)) =
   set (walk_dir ishidden realpath exclude skip_hidden p es)"
  by (auto simp: fnames_def)

lemma walk_dir_sub:
  "set (walk_dir ishidden realpath exclude skip_hidden p ((n, Dir sub) # es)) =
   (if skip_hidden \<and> ishidden (join p n) then {}
    else set (walk_dir ishidden realpath exclude skip_hidden (join p n) sub))
   \<union> set (walk_dir ishidden realpath exclude skip_hidden p es)"
  by (auto simp: fnames_def)

lemma tree_files_dirs: "(f, xs) \<in> set (tree_files p ds es) \<Longrightarrow> \<exists>t. xs = ds @ t"
  by (induction p ds es arbitrary: xs rule: tree_files.induct) (auto split: if_splits)

lemma walk_complete:
  "(f, ds @ ds') \<in> set (tree_files p ds es) \<Longrightarrow>
   skip_hidden \<longrightarrow> (\<forall>d \<in> set ds'. \<not> ishidden d) \<Longrightarrow>
   \<not> skip ishidden exclude skip_hidden f \<Longrightarrow>
   \<not> skip ishidden exclude skip_hidden (realpath f) \<Longrightarrow>
   realpath f \<in> set (walk_dir ishidden realpath exclude skip_hidden p es)"
proof (induction p ds es arbitrary: ds' rule: tree_files.induct)
  case (1 p ds)
  then show ?case by simp
next
  case (2 p ds n es)
  show ?case
  proof (cases "(f, ds @ ds') \<in> set (tree_files p ds es)")
    case True
    from "2.IH" [OF True "2.prems"(2-4)] show ?thesis
      unfolding walk_dir_file by blast
  next
    case False
    with "2.prems"(1) have "f = join p n" by simp
    with "2.prems"(3,4) have "realpath f \<in> set (yield_file ishidden realpath exclude skip_hidden p n)"
      by (simp add: yield_file_def Let_def)
    then show ?thesis
      unfolding walk_dir_file by blast
  qed
next
  case (3 p ds n es)
  from "3.prems"(1) have "(f, ds @ ds') \<in> set (tree_files p ds es)" by simp
  from "3.IH" [OF this "3.prems"(2-4)] show ?case
    unfolding walk_dir_link .
next
  case (4 p ds n sub es)
  show ?case
  proof (cases "(f, ds @ ds') \<in> set (tree_files p ds es)")
    case True
    from "4.IH"(2) [OF True "4.prems"(2-4)] show ?thesis
      unfolding walk_dir_sub by blast
  next
    case False
    with "4.prems"(1)
    have in_sub: "(f, ds @ ds') \<in> set (tree_files (join p n) (ds @ [join p n]) sub)"
      by simp
    from tree_files_dirs [OF this] obtain t where t: "ds' = join p n # t"
      by auto
    with in_sub have "(f, (ds @ [join p n]) @ t) \<in> set (tree_files (join p n) (ds @ [join p n]) sub)"
      by simp
    moreover from t "4.prems"(2) have "skip_hidden \<longrightarrow> (\<forall>d \<in> set t. \<not> ishidden d)"
      by simp
    ultimately
    have "realpath f \<in> set (walk_dir ishidden realpath exclude skip_hidden (join p n) sub)"
      using "4.prems"(3,4) by (rule "4.IH"(1))
    moreover from t "4.prems"(2) have "\<not> (skip_hidden \<and> ishidden (join p n))"
      by simp
    ultimately show ?thesis
      unfolding walk_dir_sub by (auto simp del: walk_dir.simps)
  qed
qed

section \<open>Claims about the library\<close>

text \<open>
  C1. For every list of items (each has a key, by its type), \<open>add\<close> raises nothing and
  returns the accepted set: the input items that the membership test of the library does
  not find, each once. Membership of an item is membership of its key, membership of a
  key is the key being in the dict, and in a library that is keyed every stored item is
  a member. When the accepted set is not empty, each accepted item is stored under its
  own key (after the call the key of an accepted item holds an accepted item with that
  key, that very item when no two accepted items share a key; all other keys are as
  before), \<open>dirty\<close> is set and exactly one signal \<open>Added\<close> with the accepted set is
  emitted. When it is empty the library is unchanged. A second \<open>add\<close> of the same items
  accepts nothing and changes nothing.
\<close>

theorem add_accepts_absent_items:
  "\<exists>acc s'. add s items = (Inr acc, s')
     \<and> distinct acc
     \<and> set acc = {x \<in> set items. lib_contains s (PItem x) = Inr False}
     \<and> (\<forall>x. lib_contains s (PItem x) = Inr (key x \<in> fst ` set (contents s)))
     \<and> (\<forall>k. lib_contains s (PKey k) = Inr (k \<in> fst ` set (contents s)))
     \<and> (keyed s \<longrightarrow> (\<forall>v \<in> snd ` set (contents s). lib_contains s (PItem v) = Inr True))
     \<and> (acc \<noteq> [] \<longrightarrow>
           contents s' = store_all acc (contents s)
         \<and> (\<forall>x \<in> set acc. \<exists>y \<in> set acc. key y = key x \<and> map_of (contents s') (key x) = Some y)
         \<and> (inj_on key (set acc) \<longrightarrow> (\<forall>x \<in> set acc. map_of (contents s') (key x) = Some x))
         \<and> (\<forall>k. k \<notin> key ` set acc \<longrightarrow> map_of (contents s') k = map_of (contents s) k)
         \<and> dirty s'
         \<and> signals s' = signals s @ [Added acc]
         \<and> s' = s\<lparr>contents := contents s', dirty := True, signals := signals s'\<rparr>)
     \<and> (acc = [] \<longrightarrow> s' = s)
     \<and> add s' items = (Inr [], s')"
proof -
  define acc where "acc = py_set (filter (\<lambda>x. key x \<notin> fst ` set (contents s)) items)"
  define s' where "s' = snd (add s items)"
  have res: "add s items = (Inr acc, s')"
    by (simp add: s'_def acc_def add_def absent_items Let_def)
  have dist: "distinct acc"
    by (simp add: acc_def py_set_def)
  have acc_set: "set acc = {x \<in> set items. key x \<notin> fst ` set (contents s)}"
    by (auto simp: acc_def py_set_def)
  have members: "set acc = {x \<in> set items. lib_contains s (PItem x) = Inr False}"
    by (simp add: acc_set lib_contains_item)
  have stored: "keyed s \<longrightarrow> (\<forall>v \<in> snd ` set (contents s). lib_contains s (PItem v) = Inr True)"
    by (force simp: keyed_def list_all_iff lib_contains_item)
  have empty: "acc = [] \<longrightarrow> s' = s"
    by (simp add: s'_def add_def absent_items Let_def acc_def)
  have new: "s' = s\<lparr>contents := store_all acc (contents s), dirty := True,
                     signals := signals s @ [Added acc]\<rparr>" if "acc \<noteq> []"
    using that by (simp add: s'_def add_def absent_items Let_def acc_def)
  have keys': "fst ` set (contents s') = fst ` set (contents s) \<union> key ` set acc"
  proof (cases "acc = []")
    case True
    with empty show ?thesis by simp
  next
    case False
    then show ?thesis by (simp add: new store_all_keys)
  qed
  have "filter (\<lambda>x. key x \<notin> fst ` set (contents s')) items = []"
    by (auto simp: keys' acc_set filter_empty_conv)
  then have again: "add s' items = (Inr [], s')"
    by (simp add: add_def absent_items Let_def py_set_def)
  have nonempty: "contents s' = store_all acc (contents s)
         \<and> (\<forall>x \<in> set acc. \<exists>y \<in> set acc. key y = key x \<and> map_of (contents s') (key x) = Some y)
         \<and> (inj_on key (set acc) \<longrightarrow> (\<forall>x \<in> set acc. map_of (contents s') (key x) = Some x))
         \<and> (\<forall>k. k \<notin> key ` set acc \<longrightarrow> map_of (contents s') k = map_of (contents s) k)
         \<and> dirty s'
         \<and> signals s' = signals s @ [Added acc]
         \<and> s' = s\<lparr>contents := contents s', dirty := True, signals := signals s'\<rparr>"
    if "acc \<noteq> []"
    using new [OF that] by (simp add: store_all_some store_all_inj store_all_other)
  then have ne: "acc \<noteq> [] \<longrightarrow>
           contents s' = store_all acc (contents s)
         \<and> (\<forall>x \<in> set acc. \<exists>y \<in> set acc. key y = key x \<and> map_of (contents s') (key x) = Some y)
         \<and> (inj_on key (set acc) \<longrightarrow> (\<forall>x \<in> set acc. map_of (contents s') (key x) = Some x))
         \<and> (\<forall>k. k \<notin> key ` set acc \<longrightarrow> map_of (contents s') k = map_of (contents s) k)
         \<and> dirty s'
         \<and> signals s' = signals s @ [Added acc]
         \<and> s' = s\<lparr>contents := contents s', dirty := True, signals := signals s'\<rparr>"
    by (rule impI)
  have mem_item: "\<forall>x. lib_contains s (PItem x) = Inr (key x \<in> fst ` set (contents s))"
    by (simp add: lib_contains_item)
  have mem_key: "\<forall>k. lib_contains s (PKey k) = Inr (k \<in> fst ` set (contents s))"
    by (simp add: lib_contains_key)
  show ?thesis
    by (intro exI [of _ acc] exI [of _ s'] conjI)
       (fact res dist members mem_item mem_key stored ne empty again)+
qed

theorem add_accepts_absent_items_witness:
  "keyed one_song
   \<and> add one_song [song_a, song_b, song_b] =
       (Inr [song_b], one_song\<lparr>contents := [(''/m/a.ogg'', song_a), (''/m/b.ogg'', song_b)],
                                dirty := True, signals := [Added [song_b]]\<rparr>)
   \<and> [song_b] \<noteq> []
   \<and> inj_on key (set [song_b])
   \<and> lib_contains one_song (PItem song_a) = Inr True
   \<and> add (snd (add one_song [song_a, song_b, song_b])) [song_a, song_b, song_b] =
       (Inr [], snd (add one_song [song_a, song_b, song_b]))"
proof -
  have run: "add one_song [song_a, song_b, song_b] =
       (Inr [song_b], one_song\<lparr>contents := [(''/m/a.ogg'', song_a), (''/m/b.ogg'', song_b)],
                                dirty := True, signals := [Added [song_b]]\<rparr>)"
    by (simp add: add_def one_song_def new_library_def load_init_def song_a_def song_b_def
        lib_contains_def contains_body_def py_set_def Let_def)
  have k: "keyed one_song"
    by (simp add: keyed_def one_song_def new_library_def load_init_def song_a_def)
  have v: "song_a \<in> snd ` set (contents one_song)"
    by (simp add: one_song_def new_library_def load_init_def song_a_def)
  have "\<exists>acc s'. add one_song [song_a, song_b, song_b] = (Inr acc, s')
      \<and> (keyed one_song \<longrightarrow>
           (\<forall>v \<in> snd ` set (contents one_song). lib_contains one_song (PItem v) = Inr True))
      \<and> add s' [song_a, song_b, song_b] = (Inr [], s')"
    using add_accepts_absent_items [of one_song "[song_a, song_b, song_b]"]
    apply (elim exE conjE)
    apply (intro exI conjI)
      apply assumption+
    done
  with k v have "lib_contains one_song (PItem song_a) = Inr True
      \<and> add (snd (add one_song [song_a, song_b, song_b])) [song_a, song_b, song_b] =
       (Inr [], snd (add one_song [song_a, song_b, song_b]))"
    by auto
  with run k show ?thesis by simp
qed

text \<open>
  C2, as stated, fails: when two different items of the input have the same key and that
  key is in the library, both pass the membership test, the first \<^verbatim>\<open>del\<close> removes the key
  and the second raises \<^verbatim>\<open>KeyError\<close>; nothing is returned, no signal is emitted and
  \<open>dirty\<close> is not set.
\<close>

theorem remove_shared_key_counterexample:
  "remove one_song [song_a, song_a2] = (Inl KeyError, one_song\<lparr>contents := []\<rparr>)"
  by (simp add: remove_def one_song_def new_library_def load_init_def song_a_def song_a2_def
      lib_contains_def contains_body_def py_set_def)

text \<open>
  C2, amended. For every list of items in which no two different items that are members
  of the library share a key, \<open>remove\<close> raises nothing and returns the removed set: the
  input items that the membership test finds, each once. When that set is not empty,
  the dict loses exactly the keys of these items, \<open>dirty\<close> is set and exactly one signal
  \<open>Removed\<close> with that set is emitted; when it is empty the library is unchanged.
\<close>

theorem remove_deletes_present_items:
  assumes "inj_on key {x \<in> set items. lib_contains s (PItem x) = Inr True}"
  shows "\<exists>acc s'. remove s items = (Inr acc, s')
     \<and> distinct acc
     \<and> set acc = {x \<in> set items. lib_contains s (PItem x) = Inr True}
     \<and> (acc \<noteq> [] \<longrightarrow>
           contents s' = filter (\<lambda>(k, v). k \<notin> key ` set acc) (contents s)
         \<and> (\<forall>x \<in> set acc. map_of (contents s') (key x) = None)
         \<and> (\<forall>k. k \<notin> key ` set acc \<longrightarrow> map_of (contents s') k = map_of (contents s) k)
         \<and> dirty s'
         \<and> signals s' = signals s @ [Removed acc]
         \<and> s' = s\<lparr>contents := contents s', dirty := True, signals := signals s'\<rparr>)
     \<and> (acc = [] \<longrightarrow> s' = s)"
proof -
  define acc where "acc = py_set (filter (\<lambda>x. key x \<in> fst ` set (contents s)) items)"
  define c' where "c' = filter (\<lambda>(k, v). k \<notin> key ` set acc) (contents s)"
  define s' where "s' = (if acc = [] then s
     else s\<lparr>contents := c', dirty := True, signals := signals s @ [Removed acc]\<rparr>)"
  have dist: "distinct acc"
    by (simp add: acc_def py_set_def)
  have acc_set: "set acc = {x \<in> set items. key x \<in> fst ` set (contents s)}"
    by (auto simp: acc_def py_set_def)
  have members: "set acc = {x \<in> set items. lib_contains s (PItem x) = Inr True}"
    by (simp add: acc_set lib_contains_item)
  from assms have "inj_on key (set acc)"
    by (simp add: members)
  with dist have "distinct (map key acc)"
    by (rule inj_on_distinct_keys)
  moreover have "key ` set acc \<subseteq> fst ` set (contents s)"
    by (auto simp: acc_set)
  ultimately have del: "del_all acc (contents s) = (None, c')"
    unfolding c'_def by (rule del_all_ok)
  have res: "remove s items = (Inr acc, s')"
    using del by (simp add: remove_def present_items Let_def acc_def [symmetric] s'_def)
  have gone: "\<forall>x \<in> set acc. map_of c' (key x) = None"
    by (force simp: c'_def map_of_eq_None_iff)
  have kept: "\<forall>k. k \<notin> key ` set acc \<longrightarrow> map_of c' k = map_of (contents s) k"
    unfolding c'_def by (simp add: map_of_filter_keys)
  have ne: "acc \<noteq> [] \<longrightarrow>
           contents s' = filter (\<lambda>(k, v). k \<notin> key ` set acc) (contents s)
         \<and> (\<forall>x \<in> set acc. map_of (contents s') (key x) = None)
         \<and> (\<forall>k. k \<notin> key ` set acc \<longrightarrow> map_of (contents s') k = map_of (contents s) k)
         \<and> dirty s'
         \<and> signals s' = signals s @ [Removed acc]
         \<and> s' = s\<lparr>contents := contents s', dirty := True, signals := signals s'\<rparr>"
    using gone kept by (simp add: s'_def c'_def)
  have empty: "acc = [] \<longrightarrow> s' = s"
    by (simp add: s'_def)
  show ?thesis
    by (intro exI [of _ acc] exI [of _ s'] conjI) (fact res dist members ne empty)+
qed

theorem remove_deletes_present_items_witness:
  "inj_on key {x \<in> set [song_a, song_b]. lib_contains one_song (PItem x) = Inr True}
   \<and> remove one_song [song_a, song_b] =
       (Inr [song_a], one_song\<lparr>contents := [], dirty := True, signals := [Removed [song_a]]\<rparr>)
   \<and> dirty (snd (remove one_song [song_a, song_b]))"
proof -
  have sel: "{x \<in> set [song_a, song_b]. lib_contains one_song (PItem x) = Inr True} = {song_a}"
    by (auto simp: lib_contains_item one_song_def new_library_def load_init_def
        song_a_def song_b_def)
  then have h: "inj_on key {x \<in> set [song_a, song_b]. lib_contains one_song (PItem x) = Inr True}"
    by simp
  have run: "remove one_song [song_a, song_b] =
       (Inr [song_a], one_song\<lparr>contents := [], dirty := True, signals := [Removed [song_a]]\<rparr>)"
    by (simp add: remove_def one_song_def new_library_def load_init_def song_a_def song_b_def
        lib_contains_def contains_body_def py_set_def Let_def)
  have "\<exists>acc s'. remove one_song [song_a, song_b] = (Inr acc, s') \<and> (acc \<noteq> [] \<longrightarrow> dirty s')"
    using remove_deletes_present_items [OF h]
    apply (elim exE conjE)
    apply (intro exI conjI)
     apply assumption
    apply blast
    done
  then have "dirty (snd (remove one_song [song_a, song_b]))"
    by (auto simp: run)
  with h run show ?thesis by simp
qed

text \<open>
  C3. \<open>changed\<close> of no items does nothing. For a non-empty list of items: when a
  librarian is registered and this library is among its libraries, the librarian's
  \<^verbatim>\<open>changed\<close> is called once with the items as given and the library itself is left as
  it is. Otherwise (no librarian, or one that does not hold this library) no librarian is
  called, the items are filtered to the members of the library, each once; if any is
  left, \<open>dirty\<close> is set and exactly one signal \<open>Changed\<close> with them is emitted, and if none
  is left nothing happens. No case raises.
\<close>

theorem changed_delegates_or_emits:
  "(items = [] \<longrightarrow> changed s l items = (Inr (), s, l))
   \<and> (items \<noteq> [] \<longrightarrow>
        (\<forall>lb. l = Some lb \<and> ident s \<in> snd ` set (libraries lb) \<longrightarrow>
           changed s l items =
             (Inr (), s, Some (lb\<lparr>changed_calls := changed_calls lb @ [items]\<rparr>)))
      \<and> (l = None \<or> (\<exists>lb. l = Some lb \<and> ident s \<notin> snd ` set (libraries lb)) \<longrightarrow>
           (\<exists>acc. distinct acc
              \<and> set acc = {x \<in> set items. lib_contains s (PItem x) = Inr True}
              \<and> changed s l items =
                  (Inr (),
                   if acc = [] then s
                   else s\<lparr>dirty := True, signals := signals s @ [Changed acc]\<rparr>,
                   l))))
   \<and> (\<exists>s' l'. changed s l items = (Inr (), s', l'))"
proof -
  define acc where "acc = py_set (filter (\<lambda>x. key x \<in> fst ` set (contents s)) items)"
  have dist: "distinct acc"
    by (simp add: acc_def py_set_def)
  have members: "set acc = {x \<in> set items. lib_contains s (PItem x) = Inr True}"
    by (auto simp: acc_def py_set_def lib_contains_item)
  have local: "changed s l items =
      (Inr (), if acc = [] then s else s\<lparr>dirty := True, signals := signals s @ [Changed acc]\<rparr>, l)"
    if "items \<noteq> []" "\<not> managed s l"
    using that by (simp add: changed_def present_items Let_def acc_def [symmetric] changed_emit_def)
  have deleg: "changed s l items =
      (Inr (), s, Some (lb\<lparr>changed_calls := changed_calls lb @ [items]\<rparr>))"
    if "items \<noteq> []" "l = Some lb" "ident s \<in> snd ` set (libraries lb)" for lb
    using that by (simp add: changed_def managed_def)
  have unmanaged: "\<not> managed s l"
    if "l = None \<or> (\<exists>lb. l = Some lb \<and> ident s \<notin> snd ` set (libraries lb))"
    using that by (auto simp: managed_def)
  have p1: "items = [] \<longrightarrow> changed s l items = (Inr (), s, l)"
    by (simp add: changed_def)
  have p2: "items \<noteq> [] \<longrightarrow>
        (\<forall>lb. l = Some lb \<and> ident s \<in> snd ` set (libraries lb) \<longrightarrow>
           changed s l items =
             (Inr (), s, Some (lb\<lparr>changed_calls := changed_calls lb @ [items]\<rparr>)))
      \<and> (l = None \<or> (\<exists>lb. l = Some lb \<and> ident s \<notin> snd ` set (libraries lb)) \<longrightarrow>
           (\<exists>acc. distinct acc
              \<and> set acc = {x \<in> set items. lib_contains s (PItem x) = Inr True}
              \<and> changed s l items =
                  (Inr (),
                   if acc = [] then s
                   else s\<lparr>dirty := True, signals := signals s @ [Changed acc]\<rparr>,
                   l)))"
    using deleg local unmanaged dist members by blast
  have p3: "\<exists>s' l'. changed s l items = (Inr (), s', l')"
    by (simp add: changed_def present_items Let_def)
  from p1 p2 p3 show ?thesis by blast
qed

theorem changed_delegates_or_emits_witness:
  "[song_a, song_b] \<noteq> []
   \<and> ident one_song \<in> snd ` set (libraries main_librarian)
   \<and> changed one_song (Some main_librarian) [song_a, song_b] =
       (Inr (), one_song, Some (main_librarian\<lparr>changed_calls := [[song_a, song_b]]\<rparr>))
   \<and> changed one_song None [song_a, song_b] =
       (Inr (), one_song\<lparr>dirty := True, signals := [Changed [song_a]]\<rparr>, None)
   \<and> changed one_song None [song_b] = (Inr (), one_song, None)"
proof -
  have m: "ident one_song \<in> snd ` set (libraries main_librarian)"
    by (simp add: one_song_def new_library_def load_init_def main_librarian_def)
  have ne: "[song_a, song_b] \<noteq> []"
    by simp
  from changed_delegates_or_emits [of "[song_a, song_b]" one_song "Some main_librarian"] m ne
  have d: "changed one_song (Some main_librarian) [song_a, song_b] =
       (Inr (), one_song, Some (main_librarian\<lparr>changed_calls := [[song_a, song_b]]\<rparr>))"
    by (simp add: main_librarian_def)
  have e: "changed one_song None [song_a, song_b] =
       (Inr (), one_song\<lparr>dirty := True, signals := [Changed [song_a]]\<rparr>, None)"
    by (simp add: changed_def managed_def changed_emit_def one_song_def new_library_def
        load_init_def song_a_def song_b_def lib_contains_def contains_body_def py_set_def Let_def)
  have n: "changed one_song None [song_b] = (Inr (), one_song, None)"
    by (simp add: changed_def managed_def changed_emit_def one_song_def new_library_def
        load_init_def song_a_def song_b_def lib_contains_def contains_body_def py_set_def Let_def)
  from m ne d e n show ?thesis by simp
qed

text \<open>
  C4, as stated, fails: \<open>load_init\<close> on a library that is not dirty leaves it not dirty.
  Only \<open>load_item\<close> assigns \<open>dirty\<close>.
\<close>

theorem load_init_dirty_counterexample:
  "\<not> dirty (load_init (new_library None 0) [song_a])"
  by (simp add: load_init_def new_library_def)

text \<open>
  C4, amended. For every list of items, \<open>load_init\<close> stores each item in the dict under
  its own key, in the order of the list (after the call the key of a loaded item holds a
  loaded item with that key, that very item when no two loaded items share a key; all
  other keys are as before), leaves \<open>dirty\<close> as it was and emits no signal. \<open>load_item\<close>
  stores its item under the item's key, sets \<open>dirty\<close> and emits no signal.
\<close>

theorem load_init_stores_silently:
  "contents (load_init s items) = store_all items (contents s)
   \<and> (\<forall>x \<in> set items. \<exists>y \<in> set items. key y = key x
         \<and> map_of (contents (load_init s items)) (key x) = Some y)
   \<and> (inj_on key (set items) \<longrightarrow>
        (\<forall>x \<in> set items. map_of (contents (load_init s items)) (key x) = Some x))
   \<and> (\<forall>k. k \<notin> key ` set items \<longrightarrow>
        map_of (contents (load_init s items)) k = map_of (contents s) k)
   \<and> dirty (load_init s items) = dirty s
   \<and> signals (load_init s items) = signals s
   \<and> load_init s items = s\<lparr>contents := contents (load_init s items)\<rparr>
   \<and> map_of (contents (load_item s x)) (key x) = Some x
   \<and> dirty (load_item s x)
   \<and> signals (load_item s x) = signals s"
  by (simp add: load_init_def load_item_def store_all_some store_all_inj store_all_other
      update_conv')

theorem load_init_stores_silently_witness:
  "inj_on key (set [song_a, song_b])
   \<and> map_of (contents (load_init (new_library None 0) [song_a, song_b])) ''/m/b.ogg'' = Some song_b
   \<and> map_of (contents (load_init (new_library None 0) [song_a, song_b])) ''/m/c.ogg'' = None
   \<and> dirty (load_init (new_library None 0) [song_a, song_b]) = False
   \<and> signals (load_init (new_library None 0) [song_a, song_b]) = ([] :: (string, nat) signal list)"
proof -
  have i: "inj_on key (set [song_a, song_b])"
    by (simp add: song_a_def song_b_def)
  have k: "''/m/c.ogg'' \<notin> key ` set [song_a, song_b]"
    by (simp add: song_a_def song_b_def)
  have b: "key song_b = ''/m/b.ogg''"
    by (simp add: song_b_def)
  from load_init_stores_silently [of "new_library None 0" "[song_a, song_b]" song_a] i k b
  show ?thesis
    by (auto simp: new_library_def)
qed

text \<open>
  C8. In a library that is keyed (every entry of the dict is stored under the key of its
  item), \<open>add\<close>, \<open>remove\<close>, \<open>load_item\<close> and \<open>load_init\<close> each leave a library
  that is keyed, also when \<open>remove\<close> raises.
\<close>

theorem keyed_preserved:
  assumes "keyed s"
  shows "keyed (snd (add s items)) \<and> keyed (snd (remove s items))
       \<and> keyed (load_item s x) \<and> keyed (load_init s items)"
proof -
  from assms have c: "list_all (\<lambda>(k, v). key v = k) (contents s)"
    by (simp add: keyed_def)
  have a: "keyed (snd (add s items))"
    using c by (simp add: add_def absent_items Let_def keyed_def store_all_keyed)
  have "keyed (snd (remove s items))"
  proof (cases "py_set (filter (\<lambda>x. key x \<in> fst ` set (contents s)) items) = []")
    case True
    with assms show ?thesis by (simp add: remove_def present_items Let_def)
  next
    case False
    from del_all_keyed [OF c]
    have "list_all (\<lambda>(k, v). key v = k)
      (snd (del_all (py_set (filter (\<lambda>x. key x \<in> fst ` set (contents s)) items)) (contents s)))" .
    with False show ?thesis
      by (auto simp: remove_def present_items Let_def keyed_def split: prod.splits option.splits)
  qed
  moreover have "keyed (load_item s x)"
    using c by (simp add: load_item_def keyed_def update_keyed)
  moreover have "keyed (load_init s items)"
    using c by (simp add: load_init_def keyed_def store_all_keyed)
  ultimately show ?thesis using a by simp
qed

theorem keyed_preserved_witness:
  "keyed one_song
   \<and> keyed (snd (add one_song [song_b, song_a2]))
   \<and> keyed (snd (remove one_song [song_a, song_a2]))
   \<and> keyed (load_item one_song song_a2)
   \<and> keyed (load_init one_song [song_b])"
proof -
  have k: "keyed one_song"
    by (simp add: keyed_def one_song_def new_library_def load_init_def song_a_def)
  from keyed_preserved [OF k, of "[song_b, song_a2]" song_a2]
    keyed_preserved [OF k, of "[song_a, song_a2]" song_a2]
    keyed_preserved [OF k, of "[song_b]" song_a2] k
  show ?thesis by simp
qed

text \<open>
  C10, as stated, fails: the membership test of an unhashable value (a list, say) raises
  \<^verbatim>\<open>TypeError\<close> from the dict lookup, which \<^verbatim>\<open>except AttributeError\<close> does not catch.
\<close>

theorem contains_unhashable_counterexample:
  "lib_contains (new_library None 0 :: (string, nat) library) PUnhashable = Inl TypeError"
  by (simp add: lib_contains_def contains_body_def)

text \<open>
  C10, amended. For every hashable value that is not a key of the dict and has no
  \<^verbatim>\<open>key\<close> attribute, the membership test returns \<open>False\<close>. \<^verbatim>\<open>AttributeError\<close> never
  leaves the membership test. It raises nothing when its argument is hashable and
  reading the argument's \<^verbatim>\<open>key\<close> either raises \<^verbatim>\<open>AttributeError\<close> or gives a hashable
  value; so it raises for no key and no item. It raises \<^verbatim>\<open>TypeError\<close> for an
  unhashable argument and for a hashable one whose \<^verbatim>\<open>key\<close> is unhashable, and it
  raises what reading \<^verbatim>\<open>key\<close> raises when that is another error.
\<close>

theorem contains_total_on_hashable:
  "(k \<notin> fst ` set (contents s) \<longrightarrow> lib_contains s (PKey k) = Inr False)
   \<and> lib_contains s x \<noteq> Inl AttributeError
   \<and> (hashable x
        \<and> (case getattr_key x of Inl e \<Rightarrow> e = AttributeError | Inr v \<Rightarrow> hashable v)
      \<longrightarrow> (\<exists>b. lib_contains s x = Inr b))
   \<and> (\<exists>b. lib_contains s (PKey k) = Inr b)
   \<and> (\<exists>b. lib_contains s (PItem i) = Inr b)
   \<and> (\<not> hashable x \<longrightarrow> lib_contains s x = Inl TypeError)
   \<and> (\<forall>v. hashable x \<and> getattr_key x = Inr v \<and> \<not> hashable v \<longrightarrow>
          lib_contains s x = Inl TypeError)
   \<and> (\<forall>e. hashable x \<and> getattr_key x = Inl e \<and> e \<noteq> AttributeError \<longrightarrow>
          lib_contains s x = Inl e)"
proof -
  have key: "lib_contains s (PKey k') = Inr (k' \<in> fst ` set (contents s))" for k'
    by (rule lib_contains_key)
  have item: "lib_contains s (PItem i') = Inr (key i' \<in> fst ` set (contents s))" for i'
    by (rule lib_contains_item)
  have obj: "lib_contains s (PObject a) =
      (case a of
         Inl e \<Rightarrow> if e = AttributeError then Inr False else Inl e
       | Inr v \<Rightarrow> if hashable v then dict_contains (contents s) v else Inl TypeError)" for a
  proof (cases a)
    case (Inl e)
    then show ?thesis by (simp add: lib_contains_def contains_body_def)
  next
    case (Inr v)
    then show ?thesis
      by (cases v) (simp_all add: lib_contains_def contains_body_def)
  qed
  have total: "\<exists>b. dict_contains (contents s) v = Inr b" if "hashable v" for v
    using that by (cases v) auto
  show ?thesis
  proof (cases x)
    case (PKey k')
    then show ?thesis by (auto simp: key item)
  next
    case (PItem i')
    then show ?thesis by (auto simp: key item)
  next
    case PUnhashable
    then show ?thesis by (auto simp: key item lib_contains_unhashable)
  next
    case (PObject a)
    show ?thesis
    proof (cases a)
      case (Inl e)
      with PObject show ?thesis by (auto simp: key item obj)
    next
      case (Inr v)
      with PObject total [of v] show ?thesis
        by (cases "hashable v") (auto simp: key item obj)
    qed
  qed
qed

theorem contains_total_on_hashable_witness:
  "''/m/z.ogg'' \<notin> fst ` set (contents one_song)
   \<and> lib_contains one_song (PKey ''/m/z.ogg'') = Inr False
   \<and> hashable (PObject (Inl AttributeError) :: (string, nat) pyobj)
   \<and> lib_contains one_song (PObject (Inl AttributeError)) = Inr False
   \<and> \<not> hashable (PUnhashable :: (string, nat) pyobj)
   \<and> lib_contains one_song PUnhashable = Inl TypeError
   \<and> getattr_key (PObject (Inr PUnhashable) :: (string, nat) pyobj) = Inr PUnhashable
   \<and> lib_contains one_song (PObject (Inr PUnhashable)) = Inl TypeError
   \<and> getattr_key (PObject (Inl KeyError) :: (string, nat) pyobj) = Inl KeyError
   \<and> lib_contains one_song (PObject (Inl KeyError)) = Inl KeyError"
proof -
  have a: "''/m/z.ogg'' \<notin> fst ` set (contents one_song)"
    by (simp add: one_song_def new_library_def load_init_def song_a_def)
  from contains_total_on_hashable [of "''/m/z.ogg''" one_song "PKey ''/m/z.ogg''" song_a] a
  have 1: "lib_contains one_song (PKey ''/m/z.ogg'') = Inr False"
    by simp
  have 2: "lib_contains one_song (PObject (Inl AttributeError)) = Inr False"
    by (simp add: lib_contains_def contains_body_def)
  from contains_total_on_hashable [of "''/m/z.ogg''" one_song PUnhashable song_a]
  have 3: "lib_contains one_song PUnhashable = Inl TypeError"
    by simp
  from contains_total_on_hashable [of "''/m/z.ogg''" one_song "PObject (Inr PUnhashable)" song_a]
  have 4: "lib_contains one_song (PObject (Inr PUnhashable)) = Inl TypeError"
    by simp
  from contains_total_on_hashable [of "''/m/z.ogg''" one_song "PObject (Inl KeyError)" song_a]
  have 5: "lib_contains one_song (PObject (Inl KeyError)) = Inl KeyError"
    by simp
  from a 1 2 3 4 5 show ?thesis by simp
qed

section \<open>Claims about persistence\<close>

text \<open>
  C5. \<open>save\<close> clears \<open>dirty\<close> exactly when the whole write succeeds: the directory is
  there, the temporary file can be created, the encoder returns bytes, they fit on the
  disk and the target can be replaced. Then nothing is printed. In every other case the
  library, \<open>dirty\<close> included, is as before the call. When the encoder raises
  \<^verbatim>\<open>SerializationError\<close>, or the file system raises an I/O error at any step, \<open>save\<close>
  returns normally and the error is printed. (With no file name to save to, neither
  given nor remembered from \<open>load\<close>, the call raises \<^verbatim>\<open>TypeError\<close> before any of this.)
\<close>

theorem save_clears_dirty_on_success_only:
  "(save_to s fname = None \<longrightarrow> save dump fs r s fname = (Inl TypeError, s, [fs], []))
   \<and> (\<forall>f. save_to s fname = Some f \<longrightarrow>
      (\<not> mkdir_denied fs (dirname f) \<and> \<not> write_denied fs (temp_name f r)
          \<and> (\<exists>d. dump (get_content s) = Inr d \<and> fits fs d) \<and> \<not> write_denied fs f
        \<longrightarrow> (\<exists>tr. save dump fs r s fname = (Inr (), s\<lparr>dirty := False\<rparr>, tr, [])))
     \<and> (\<not> (\<not> mkdir_denied fs (dirname f) \<and> \<not> write_denied fs (temp_name f r)
          \<and> (\<exists>d. dump (get_content s) = Inr d \<and> fits fs d) \<and> \<not> write_denied fs f)
        \<longrightarrow> (\<exists>res tr lg. save dump fs r s fname = (res, s, tr, lg)))
     \<and> (\<not> mkdir_denied fs (dirname f) \<and> \<not> write_denied fs (temp_name f r)
          \<and> dump (get_content s) = Inl SerializationError
        \<longrightarrow> (\<exists>tr. save dump fs r s fname = (Inr (), s, tr, [PrintExc SerializationError])))
     \<and> (mkdir_denied fs (dirname f) \<or> write_denied fs (temp_name f r)
          \<or> (\<exists>d. dump (get_content s) = Inr d \<and> (\<not> fits fs d \<or> write_denied fs f))
        \<longrightarrow> (\<exists>tr. save dump fs r s fname = (Inr (), s, tr, [CouldNotSave f]))))"
proof (intro conjI allI impI)
  assume "save_to s fname = None"
  then show "save dump fs r s fname = (Inl TypeError, s, [fs], [])"
    by (simp add: save_def)
next
  fix f
  assume f: "save_to s fname = Some f"
  {
    assume "\<not> mkdir_denied fs (dirname f) \<and> \<not> write_denied fs (temp_name f r)
          \<and> (\<exists>d. dump (get_content s) = Inr d \<and> fits fs d) \<and> \<not> write_denied fs f"
    with save_outcomes [OF f, of fs r dump]
    show "\<exists>tr. save dump fs r s fname = (Inr (), s\<lparr>dirty := False\<rparr>, tr, [])"
      by blast
  next
    assume "\<not> (\<not> mkdir_denied fs (dirname f) \<and> \<not> write_denied fs (temp_name f r)
          \<and> (\<exists>d. dump (get_content s) = Inr d \<and> fits fs d) \<and> \<not> write_denied fs f)"
    with save_outcomes [OF f, of fs r dump]
    show "\<exists>res tr lg. save dump fs r s fname = (res, s, tr, lg)"
      by blast
  next
    assume "\<not> mkdir_denied fs (dirname f) \<and> \<not> write_denied fs (temp_name f r)
          \<and> dump (get_content s) = Inl SerializationError"
    with save_outcomes [OF f, of fs r dump]
    show "\<exists>tr. save dump fs r s fname = (Inr (), s, tr, [PrintExc SerializationError])"
      by blast
  next
    assume "mkdir_denied fs (dirname f) \<or> write_denied fs (temp_name f r)
          \<or> (\<exists>d. dump (get_content s) = Inr d \<and> (\<not> fits fs d \<or> write_denied fs f))"
    with save_outcomes [OF f, of fs r dump]
    show "\<exists>tr. save dump fs r s fname = (Inr (), s, tr, [CouldNotSave f])"
      by blast
  }
qed

theorem save_clears_dirty_on_success_only_witness:
  "save_to (one_song\<lparr>dirty := True\<rparr>) (Some ''/lib/songs'') = Some ''/lib/songs''
   \<and> dirty (fst (snd (save demo_encode demo_fs ''x'' (one_song\<lparr>dirty := True\<rparr>) (Some ''/lib/songs'')))) = False
   \<and> fst (snd (save failing_encode demo_fs ''x'' (one_song\<lparr>dirty := True\<rparr>) (Some ''/lib/songs'')))
       = one_song\<lparr>dirty := True\<rparr>
   \<and> snd (snd (snd (save failing_encode demo_fs ''x'' (one_song\<lparr>dirty := True\<rparr>) (Some ''/lib/songs''))))
       = [PrintExc SerializationError]"
proof -
  have t: "save_to (one_song\<lparr>dirty := True\<rparr>) (Some ''/lib/songs'') = Some ''/lib/songs''"
    by (simp add: save_to_def)
  have a: "\<not> mkdir_denied demo_fs (dirname ''/lib/songs'')"
    "\<not> write_denied demo_fs (temp_name ''/lib/songs'' ''x'')"
    "\<not> write_denied demo_fs ''/lib/songs''"
    by (simp_all add: demo_fs_def)
  have e: "\<exists>d. demo_encode (get_content (one_song\<lparr>dirty := True\<rparr>)) = Inr d \<and> fits demo_fs d"
    by (simp add: demo_encode_def fits_def demo_fs_def)
  have f: "failing_encode (get_content (one_song\<lparr>dirty := True\<rparr>)) = Inl SerializationError"
    by (simp add: failing_encode_def)
  from save_clears_dirty_on_success_only
         [of "one_song\<lparr>dirty := True\<rparr>" "Some ''/lib/songs''" demo_encode demo_fs "''x''"] t a e
  have 1: "dirty (fst (snd (save demo_encode demo_fs ''x'' (one_song\<lparr>dirty := True\<rparr>) (Some ''/lib/songs'')))) = False"
    by auto
  from save_clears_dirty_on_success_only
         [of "one_song\<lparr>dirty := True\<rparr>" "Some ''/lib/songs''" failing_encode demo_fs "''x''"] t a f
  have 2: "fst (snd (save failing_encode demo_fs ''x'' (one_song\<lparr>dirty := True\<rparr>) (Some ''/lib/songs'')))
       = one_song\<lparr>dirty := True\<rparr>
   \<and> snd (snd (snd (save failing_encode demo_fs ''x'' (one_song\<lparr>dirty := True\<rparr>) (Some ''/lib/songs''))))
       = [PrintExc SerializationError]"
    by auto
  from t 1 2 show ?thesis by simp
qed

text \<open>
  C6. With a file name to save to, a \<open>save\<close> that fails (it raises, or it prints an
  error) leaves the file at the target path as it was in every state the file system
  goes through. A \<open>save\<close> that succeeds leaves the encoder's bytes there, and in every
  state on the way the target holds either what it held before or all of these bytes:
  the bytes go to the temporary file, which is renamed onto the target at the end.
\<close>

theorem save_is_atomic:
  assumes "save_to s fname = Some f"
  shows "\<exists>res s' tr lg. save dump fs r s fname = (res, s', tr, lg)
     \<and> tr \<noteq> [] \<and> hd tr = fs
     \<and> (res \<noteq> Inr () \<or> lg \<noteq> [] \<longrightarrow> (\<forall>st \<in> set tr. files st f = files fs f))
     \<and> (res = Inr () \<and> lg = [] \<longrightarrow>
          (\<exists>d. dump (get_content s) = Inr d
             \<and> files (last tr) f = Some d
             \<and> (\<forall>st \<in> set tr. files st f = files fs f \<or> files st f = Some d)))"
proof (cases "save_attempt dump fs r s f")
  case (Pair err tr)
  have tr: "tr \<noteq> [] \<and> hd tr = fs"
    using Pair atomic_save_trace [of fs r f "dump (get_content s)"]
    by (auto simp: save_attempt_def mkdir_def split: if_splits)
  show ?thesis
  proof (cases err)
    case None
    with Pair have "atomic_save fs r f (dump (get_content s)) = (None, tr)"
      by (simp add: save_attempt_def mkdir_def split: if_splits)
    from atomic_save_done [OF this]
    have "\<exists>d. dump (get_content s) = Inr d
             \<and> files (last tr) f = Some d
             \<and> (\<forall>st \<in> set tr. files st f = files fs f \<or> files st f = Some d)"
      by blast
    moreover have "save dump fs r s fname = (Inr (), s\<lparr>dirty := False\<rparr>, tr, [])"
      using Pair None by (simp add: save_def assms)
    ultimately show ?thesis using tr by simp
  next
    case (Some e)
    have same: "\<forall>st \<in> set tr. files st f = files fs f"
    proof (cases "mkdir_denied fs (dirname f)")
      case True
      with Pair show ?thesis by (auto simp: save_attempt_def mkdir_def)
    next
      case False
      with Pair Some have "atomic_save fs r f (dump (get_content s)) = (Some e, tr)"
        by (simp add: save_attempt_def mkdir_def)
      then show ?thesis by (rule atomic_save_failed)
    qed
    have "\<exists>res lg. save dump fs r s fname = (res, s, tr, lg) \<and> (res \<noteq> Inr () \<or> lg \<noteq> [])"
      using Pair Some by (simp add: save_def assms)
    with same tr show ?thesis by auto
  qed
qed

theorem save_is_atomic_witness:
  "save_to (one_song\<lparr>dirty := True\<rparr>) (Some ''/lib/songs'') = Some ''/lib/songs''
   \<and> save failing_encode demo_fs ''x'' (one_song\<lparr>dirty := True\<rparr>) (Some ''/lib/songs'') =
       (Inr (), one_song\<lparr>dirty := True\<rparr>,
        [demo_fs, put_file demo_fs ''/lib/songs_x.tmp'' [],
         unlink (put_file demo_fs ''/lib/songs_x.tmp'' []) ''/lib/songs_x.tmp''],
        [PrintExc SerializationError])
   \<and> [PrintExc SerializationError] \<noteq> []
   \<and> files (unlink (put_file demo_fs ''/lib/songs_x.tmp'' []) ''/lib/songs_x.tmp'') ''/lib/songs''
       = files demo_fs ''/lib/songs''
   \<and> files demo_fs ''/lib/songs'' = Some ''12''"
proof -
  have t: "save_to (one_song\<lparr>dirty := True\<rparr>) (Some ''/lib/songs'') = Some ''/lib/songs''"
    by (simp add: save_to_def)
  have run: "save failing_encode demo_fs ''x'' (one_song\<lparr>dirty := True\<rparr>) (Some ''/lib/songs'') =
       (Inr (), one_song\<lparr>dirty := True\<rparr>,
        [demo_fs, put_file demo_fs ''/lib/songs_x.tmp'' [],
         unlink (put_file demo_fs ''/lib/songs_x.tmp'' []) ''/lib/songs_x.tmp''],
        [PrintExc SerializationError])"
    by (simp add: save_def save_to_def save_attempt_def mkdir_def atomic_save_def
        failing_encode_def temp_name_def demo_fs_def Let_def)
  from save_is_atomic [OF t, of failing_encode demo_fs "''x''"]
  have "files (unlink (put_file demo_fs ''/lib/songs_x.tmp'' []) ''/lib/songs_x.tmp'') ''/lib/songs''
       = files demo_fs ''/lib/songs''"
    by (simp add: run)
  moreover have "files demo_fs ''/lib/songs'' = Some ''12''"
    by (simp add: demo_fs_def)
  ultimately show ?thesis using t run by simp
qed

text \<open>
  C7. With a decoder that raises nothing but \<^verbatim>\<open>SerializationError\<close>, \<open>load\<close> raises
  for no path and no file system, records the path as the file name of the library,
  emits no signal and leaves \<open>dirty\<close> as it was. If the file cannot be read, a warning is
  printed, no item is loaded and the file system is untouched. If it is read and the
  decoder raises, no item is loaded and the bytes of the file are copied to the path
  with \<^verbatim>\<open>.not-valid\<close> appended; when the copy fails that is only printed; no other file
  changes. If the decoder returns items, they go through \<open>load_init\<close>.
\<close>

theorem load_never_raises:
  assumes "\<forall>d e. decode d = Inl e \<longrightarrow> e = SerializationError"
  shows "\<exists>s' fs' lg. load decode fs s p = (Inr (), s', fs', lg)
     \<and> filename s' = Some p
     \<and> signals s' = signals s
     \<and> dirty s' = dirty s
     \<and> (files fs p = None \<or> read_denied fs p \<longrightarrow>
          s' = s\<lparr>filename := Some p\<rparr> \<and> fs' = fs \<and> lg = [CouldNotLoad p])
     \<and> (\<forall>d. read_file fs p = Inr d \<and> decode d = Inl SerializationError \<longrightarrow>
          s' = s\<lparr>filename := Some p\<rparr>
          \<and> (\<not> write_denied fs (p @ ''.not-valid'') \<and> fits fs d \<longrightarrow>
               files fs' (p @ ''.not-valid'') = Some d \<and> lg = [PrintExc SerializationError])
          \<and> (write_denied fs (p @ ''.not-valid'') \<or> \<not> fits fs d \<longrightarrow>
               lg = [PrintExc SerializationError, PrintExc EnvironmentError])
          \<and> (\<forall>q. q \<noteq> p @ ''.not-valid'' \<longrightarrow> files fs' q = files fs q))
     \<and> (\<forall>d items. read_file fs p = Inr d \<and> decode d = Inr items \<longrightarrow>
          s' = load_init (s\<lparr>filename := Some p\<rparr>) items \<and> fs' = fs \<and> lg = [])"
proof (cases "read_file fs p")
  case (Inl e)
  then have e: "e = EnvironmentError"
    by (auto simp: read_file_def split: option.splits if_splits)
  from Inl have "files fs p = None \<or> read_denied fs p"
    by (auto simp: read_file_def split: option.splits if_splits)
  with Inl e show ?thesis
    by (simp add: load_def load_items_def load_init_def)
next
  case (Inr d)
  then have readable: "\<not> (files fs p = None \<or> read_denied fs p)"
    by (auto simp: read_file_def split: option.splits if_splits)
  show ?thesis
  proof (cases "decode d")
    case (Inr items)
    with \<open>read_file fs p = Inr d\<close> readable show ?thesis
      by (simp add: load_def load_items_def load_init_def)
  next
    case (Inl e)
    with assms have e: "e = SerializationError" by blast
    have differs: "p @ ''.not-valid'' \<noteq> p" by simp
    show ?thesis
    proof (cases "write_denied fs (p @ ''.not-valid'')")
      case True
      with Inl e \<open>read_file fs p = Inr d\<close> readable show ?thesis
        by (simp add: load_def load_items_def load_init_def copy_file_def)
    next
      case False
      show ?thesis
      proof (cases "fits fs d")
        case True
        with False Inl e \<open>read_file fs p = Inr d\<close> readable show ?thesis
          by (simp add: load_def load_items_def load_init_def copy_file_def put_file_def)
      next
        case nofit: False
        with False Inl e \<open>read_file fs p = Inr d\<close> readable show ?thesis
          by (simp add: load_def load_items_def load_init_def copy_file_def put_file_def)
      qed
    qed
  qed
qed

theorem load_never_raises_witness:
  "load demo_decode demo_fs (new_library None 0) ''/lib/songs'' =
     (Inr (), load_init (new_library None 0\<lparr>filename := Some ''/lib/songs''\<rparr>) [song_a, song_b],
      demo_fs, [])
   \<and> read_file demo_fs ''/lib/broken'' = Inr ''1x''
   \<and> demo_decode ''1x'' = Inl SerializationError
   \<and> fits demo_fs ''1x''
   \<and> contents (fst (snd (load demo_decode demo_fs (new_library None 0) ''/lib/broken''))) = []
   \<and> files (fst (snd (snd (load demo_decode demo_fs (new_library None 0) ''/lib/broken''))))
        ''/lib/broken.not-valid'' = Some ''1x''
   \<and> files demo_fs ''/lib/missing'' = None
   \<and> load demo_decode demo_fs (new_library None 0) ''/lib/missing'' =
       (Inr (), new_library None 0\<lparr>filename := Some ''/lib/missing''\<rparr>, demo_fs,
        [CouldNotLoad ''/lib/missing''])"
proof -
  have dec: "demo_decode d = Inl e \<Longrightarrow> e = SerializationError" for d e
    by (induction d arbitrary: e) (auto split: if_splits sum.splits simp: map_sum_def)
  then have contract: "\<forall>d e. demo_decode d = Inl e \<longrightarrow> e = SerializationError"
    by blast
  have r1: "read_file demo_fs ''/lib/songs'' = Inr ''12''"
    by (simp add: read_file_def demo_fs_def)
  have d1: "demo_decode ''12'' = Inr [song_a, song_b]"
    by simp
  have r2: "read_file demo_fs ''/lib/broken'' = Inr ''1x''"
    by (simp add: read_file_def demo_fs_def)
  have d2: "demo_decode ''1x'' = Inl SerializationError"
    by simp
  have w2: "\<not> write_denied demo_fs (''/lib/broken'' @ ''.not-valid'')" "fits demo_fs ''1x''"
    by (simp_all add: demo_fs_def fits_def)
  have m3: "files demo_fs ''/lib/missing'' = None"
    by (simp add: demo_fs_def)
  from load_never_raises [OF contract, of demo_fs "new_library None 0" "''/lib/songs''"] r1 d1
  have 1: "load demo_decode demo_fs (new_library None 0) ''/lib/songs'' =
     (Inr (), load_init (new_library None 0\<lparr>filename := Some ''/lib/songs''\<rparr>) [song_a, song_b],
      demo_fs, [])"
    by auto
  from load_never_raises [OF contract, of demo_fs "new_library None 0" "''/lib/broken''"] r2 d2 w2
  have 2: "contents (fst (snd (load demo_decode demo_fs (new_library None 0) ''/lib/broken''))) = []
   \<and> files (fst (snd (snd (load demo_decode demo_fs (new_library None 0) ''/lib/broken''))))
        ''/lib/broken.not-valid'' = Some ''1x''"
    by (auto simp: new_library_def)
  from load_never_raises [OF contract, of demo_fs "new_library None 0" "''/lib/missing''"] m3
  have 3: "load demo_decode demo_fs (new_library None 0) ''/lib/missing'' =
       (Inr (), new_library None 0\<lparr>filename := Some ''/lib/missing''\<rparr>, demo_fs,
        [CouldNotLoad ''/lib/missing''])"
    by auto
  from 1 r2 d2 w2(2) 2 m3 3 show ?thesis by simp
qed

section \<open>Claims about the scan\<close>

text \<open>
  What holds of \<open>iter_paths\<close> whatever \<^verbatim>\<open>ishidden\<close> and \<^verbatim>\<open>realpath\<close> are. It yields
  nothing when \<open>skip_hidden\<close> is set and the root is hidden. Every path it yields is
  \<^verbatim>\<open>realpath\<close> of the full path of a file of the tree under the root, and \<open>skip\<close> (hidden
  when \<open>skip_hidden\<close> is set, or starting with a prefix in \<open>exclude\<close>) rejected neither
  the full path nor the resolved one. So no yielded path starts with a prefix in
  \<open>exclude\<close>; and when \<open>skip_hidden\<close> is set, neither the root nor any directory between
  the root and the place where the walk found the file is hidden, nor is the file there
  or the yielded path itself. Nothing is said of the directories above the yielded path.
\<close>

lemma iter_paths_sound:
  "(skip_hidden \<and> ishidden root \<longrightarrow>
      iter_paths ishidden realpath listing root exclude skip_hidden = [])
   \<and> (\<forall>y \<in> set (iter_paths ishidden realpath listing root exclude skip_hidden).
        (\<exists>es f ds. listing = Some es
            \<and> (f, root # ds) \<in> set (tree_files root [root] es)
            \<and> y = realpath f
            \<and> \<not> skip ishidden exclude skip_hidden f
            \<and> \<not> skip ishidden exclude skip_hidden y
            \<and> (skip_hidden \<longrightarrow>
                 \<not> ishidden root \<and> (\<forall>d \<in> set ds. \<not> ishidden d) \<and> \<not> ishidden f \<and> \<not> ishidden y))
        \<and> (\<forall>e \<in> set exclude. \<not> prefix e y))"
proof (intro conjI impI ballI)
  assume "skip_hidden \<and> ishidden root"
  then show "iter_paths ishidden realpath listing root exclude skip_hidden = []"
    by (simp add: iter_paths_def)
next
  fix y
  assume y: "y \<in> set (iter_paths ishidden realpath listing root exclude skip_hidden)"
  then have root: "\<not> (skip_hidden \<and> ishidden root)"
    by (auto simp: iter_paths_def split: if_splits)
  with y obtain es where es: "listing = Some es"
    "y \<in> set (walk_dir ishidden realpath exclude skip_hidden root es)"
    by (auto simp: iter_paths_def split: option.splits)
  from walk_sound(1) [OF es(2), of "[root]"]
  obtain f ds where f: "(f, [root] @ ds) \<in> set (tree_files root [root] es)"
    "y = realpath f" "\<not> skip ishidden exclude skip_hidden f"
    "\<not> skip ishidden exclude skip_hidden y"
    "skip_hidden \<longrightarrow> (\<forall>d \<in> set ds. \<not> ishidden d)"
    by blast
  from skip_excluded [OF f(3)] skip_excluded [OF f(4)] root f(5)
  have "skip_hidden \<longrightarrow>
      \<not> ishidden root \<and> (\<forall>d \<in> set ds. \<not> ishidden d) \<and> \<not> ishidden f \<and> \<not> ishidden y"
    by blast
  with es(1) f show "\<exists>es f ds. listing = Some es
            \<and> (f, root # ds) \<in> set (tree_files root [root] es)
            \<and> y = realpath f
            \<and> \<not> skip ishidden exclude skip_hidden f
            \<and> \<not> skip ishidden exclude skip_hidden y
            \<and> (skip_hidden \<longrightarrow>
                 \<not> ishidden root \<and> (\<forall>d \<in> set ds. \<not> ishidden d) \<and> \<not> ishidden f \<and> \<not> ishidden y)"
    by auto
  fix e
  assume "e \<in> set exclude"
  with skip_excluded [OF f(4)] show "\<not> prefix e y" by blast
qed

lemma iter_paths_spec_example:
  "iter_paths dot_hidden (\<lambda>p. p) (Some demo_tree) ''/r'' [] True = [''/r/a.txt'', ''/r/b/c.txt'']
   \<and> iter_paths dot_hidden (\<lambda>p. p) (Some demo_tree) ''/r'' [''/r/b''] True = [''/r/a.txt'']
   \<and> dot_hidden ''/.r''
   \<and> iter_paths dot_hidden (\<lambda>p. p) (Some demo_tree) ''/.r'' [] True = []
   \<and> \<not> skip dot_hidden [''/r/b''] True ''/r/a.txt''
   \<and> \<not> prefix ''/r/b'' ''/r/a.txt''"
proof -
  have 1: "iter_paths dot_hidden (\<lambda>p. p) (Some demo_tree) ''/r'' [] True = [''/r/a.txt'', ''/r/b/c.txt'']"
    by (simp add: iter_paths_def demo_tree_def dot_hidden_def basename_def fnames_def
        yield_file_def skip_def join_def Let_def)
  have 2: "iter_paths dot_hidden (\<lambda>p. p) (Some demo_tree) ''/r'' [''/r/b''] True = [''/r/a.txt'']"
    by (simp add: iter_paths_def demo_tree_def dot_hidden_def basename_def fnames_def
        yield_file_def skip_def join_def Let_def)
  have h: "dot_hidden ''/.r''"
    by (simp add: dot_hidden_def basename_def)
  from iter_paths_sound
         [of True dot_hidden "''/.r''" "\<lambda>p. p" "Some demo_tree" "[]"] h
  have 3: "iter_paths dot_hidden (\<lambda>p. p) (Some demo_tree) ''/.r'' [] True = []"
    by blast
  have "''/r/a.txt'' \<in> set (iter_paths dot_hidden (\<lambda>p. p) (Some demo_tree) ''/r'' [''/r/b''] True)"
    by (simp add: 2)
  with iter_paths_sound
         [of True dot_hidden "''/r''" "\<lambda>p. p" "Some demo_tree" "[''/r/b'']"]
  have 4: "\<not> skip dot_hidden [''/r/b''] True ''/r/a.txt'' \<and> \<not> prefix ''/r/b'' ''/r/a.txt''"
    by fastforce
  from 1 2 h 3 4 show ?thesis by simp
qed

text \<open>
  C9. The claim holds but for its last clause, where the code does not do what the claim
  and the docstring of \<^verbatim>\<open>iter_paths\<close> (``Ignore files which are hidden or where any of
  the parent directories are hidden'') say. After resolving a file, \<open>skip\<close> asks
  \<^verbatim>\<open>ishidden\<close> about the resolved path only, not about the directories above it. With
  \<open>skip_hidden\<close> set, the walk of \<^verbatim>\<open>/r\<close> prunes \<^verbatim>\<open>/r/.hidden\<close>, finds the link
  \<^verbatim>\<open>/r/link\<close>, resolves it to \<^verbatim>\<open>/r/.hidden/x\<close> and yields that path: a file of the walked
  tree that lies under the hidden directory \<^verbatim>\<open>/r/.hidden\<close>.
\<close>

theorem iter_paths_yields_file_under_hidden_directory:
  "iter_paths dot_hidden link_realpath (Some link_tree) ''/r'' [] True = [''/r/.hidden/x'']
   \<and> (''/r/.hidden/x'', [''/r'', ''/r/.hidden'']) \<in> set (tree_files ''/r'' [''/r''] link_tree)
   \<and> dot_hidden ''/r/.hidden''
   \<and> prefix ''/r/.hidden/'' ''/r/.hidden/x''
   \<and> \<not> dot_hidden ''/r''
   \<and> \<not> dot_hidden ''/r/link''
   \<and> \<not> dot_hidden ''/r/.hidden/x''"
  by (simp add: iter_paths_def link_tree_def link_realpath_def dot_hidden_def basename_def
      fnames_def yield_file_def skip_def join_def Let_def)

end
